theory Spec2Isabelle
  imports Main "HOL-Library.Word"
begin

section \<open>Values and messages\<close>

text \<open>
  Go's \<open>uint64\<close> and \<open>int64\<close> are 64-bit words; an \<open>int64\<close> is read with \<open>sint\<close>, a
  \<open>uint64\<close> with \<open>unat\<close> or \<open>uint\<close>. Go strings and byte slices are byte sequences, so
  the conversion \<open>[]byte(s)\<close> is the identity on \<open>string\<close>.
\<close>

type_synonym uint64 = "64 word"
type_synonym int64 = "64 word"
type_synonym bytes = string

text \<open>The conversion \<open>uint64(x)\<close> of an \<open>int64\<close>: the value modulo \<open>2 ^ 64\<close>.\<close>

definition uint64 :: "int64 \<Rightarrow> uint64" where
  "uint64 x = word_of_int (sint x)"

text \<open>
  A \<open>time.Time\<close>, of which the owner reads the Unix second count (\<open>Time.Unix()\<close>, an
  \<open>int64\<close>) and the RFC1123 text (a library function, below).
\<close>

datatype time = Time (Unix: int64)

text \<open>
  A Go \<open>error\<close> carries its message; a failed type assertion panics. A call that returns
  \<open>(T, error)\<close> is a value of \<open>failure + T\<close>.
\<close>

datatype failure = Error string | Panic

text \<open>
  Values of the libraries, opaque to the owner: ABE keys, access structures and ciphertexts
  (gofe), index tokens and delegated index keys (mfast), document identifiers (bson).
\<close>

datatype FAMEPubKey = FAMEPubKey nat
datatype FAMESecKey = FAMESecKey nat
datatype FAMEAttribKeys = FAMEAttribKeys nat
datatype FAMECipher = FAMECipher nat
datatype MSP = MSP nat
datatype UpdateTkn = UpdateTkn nat
datatype SearchTkn = SearchTkn nat
datatype MFastKeys = MFastKeys nat
datatype ObjectID = ObjectID nat

text \<open>The values the owner stores in, and reads from, a \<open>bson.M\<close> document.\<close>

datatype bsonval = Binary bytes | ObjectIDValue ObjectID | OtherValue

text \<open>The messages of the store's RPC interface (the protobuf file).\<close>

datatype Document = Document (Binary: bytes)
datatype Token = Token (Binary: bytes)

record InsertQuery =
  Docs :: "Document list"
  Tkns :: "Token list"

record InsertResponse =
  Msg :: string

record FindQuery =
  Fields :: "string list"
  Tkns :: "Token list"

record FindResponse =
  Msg :: string
  Docs :: "Document list"

text \<open>
  The structs of the package. Those that the file declares are \<open>ownerKeys\<close> and
  \<open>OwnerConfig\<close>; of the others the file shows the fields that it reads and sets.
\<close>

text \<open>
  Modelled from the spec: the declaration of \<open>Record\<close> is not in the file. Its fields
  are the spec's: UserId, Location, Set (the policy label) and Time, the four that
  \<open>Insert\<close> reads.
\<close>

record Record =
  UserId :: string
  Location :: string
  Set :: string
  Time :: time

text \<open>
  Modelled from the spec: the declaration of \<open>FindBResult\<close> is not in the file. It is
  the result of the query that requests the UserId only; \<open>FindB\<close> sets this field.
\<close>

record FindBResult =
  UserId :: string

text \<open>
  Modelled from the spec: the declaration of \<open>FindB2Result\<close> is not in the file. It is
  the result of the query that requests UserId and Set; \<open>FindB2\<close> sets these fields.
\<close>

record FindB2Result =
  UserId :: string
  Set :: string

record ownerKeys =
  ABEPK :: FAMEPubKey
  ABESK :: FAMESecKey

record OwnerConfig =
  StorePath :: string
  SetList :: "string list"
  ServerAddr :: string

text \<open>
  Modelled from the spec: the declaration of \<open>DelegatedKeys\<close> is not in the file. It is
  the spec's delegated credential: the partition, the index-delegation secret, the
  attribute key and the public key, the four fields that \<open>DelegateKeys\<close> sets.
\<close>

record DelegatedKeys =
  Set :: string
  MFastKeys :: MFastKeys
  ABEAttrK :: FAMEAttribKeys
  ABEPK :: FAMEPubKey

text \<open>
  Modelled from the spec: the declaration of \<open>SearcherConfig\<close> is not in the file. It
  wraps the delegated keys together with the partition list and the address of the store,
  the three fields that \<open>GenSearcherConfig\<close> sets.
\<close>

record SearcherConfig =
  SetList :: "string list"
  Keys :: DelegatedKeys
  ServerAddr :: string

section \<open>The collaborators\<close>

text \<open>
  Every call that leaves the owner and may depend on state outside it (the index's
  bookkeeping, the randomness of the ABE scheme, the identifier generator, the store) is
  recorded as an event. The history is the list of the events so far, oldest first; such
  a call gets the history before it and so may answer differently each time. The owner's
  keys are fixed for its lifetime and are not part of the record.
\<close>

datatype event =
    EvNewObjectID
  | EvGenUpdateTkn string string bytes string
  | EvGenSearchTkn string bytes
  | EvDelegateKeys string
  | EvEncrypt string MSP
  | EvGenerateAttribKeys "string list"
  | EvInsert InsertQuery
  | EvFind FindQuery

type_synonym history = "event list"

fun isRPC :: "event \<Rightarrow> bool" where
  "isRPC (EvInsert q) = True"
| "isRPC (EvFind q) = True"
| "isRPC e = False"

fun isEncrypt :: "event \<Rightarrow> bool" where
  "isEncrypt (EvEncrypt m msp) = True"
| "isEncrypt e = False"

text \<open>The index owner of mfast: \<open>GenUpdateTkn(id, set, kw, op)\<close>, \<open>GenSearchTkn(set, kw)\<close>
  (a nil token when the keyword has no entry) and \<open>DelegateKeys(set)\<close>.\<close>

record mfastOwner =
  GenUpdateTkn :: "history \<Rightarrow> string \<Rightarrow> string \<Rightarrow> bytes \<Rightarrow> string \<Rightarrow> failure + UpdateTkn"
  GenSearchTkn :: "history \<Rightarrow> string \<Rightarrow> bytes \<Rightarrow> failure + SearchTkn option"
  mfastDelegateKeys :: "history \<Rightarrow> string \<Rightarrow> failure + MFastKeys"

text \<open>The ABE scheme of gofe. \<open>Decrypt\<close> returns Go's pair of a string and an error.\<close>

record FAME =
  Encrypt :: "history \<Rightarrow> string \<Rightarrow> MSP \<Rightarrow> FAMEPubKey \<Rightarrow> failure + FAMECipher"
  GenerateAttribKeys :: "history \<Rightarrow> string list \<Rightarrow> FAMESecKey \<Rightarrow> failure + FAMEAttribKeys"
  Decrypt :: "FAMECipher \<Rightarrow> FAMEAttribKeys \<Rightarrow> FAMEPubKey \<Rightarrow> string \<times> failure option"

text \<open>The client of the store.\<close>

record ServerServiceClient =
  clientInsert :: "history \<Rightarrow> InsertQuery \<Rightarrow> failure + InsertResponse"
  clientFind :: "history \<Rightarrow> FindQuery \<Rightarrow> failure + FindResponse"

text \<open>
  The functions the owner calls that are defined outside the file: the bson, json and time
  libraries, \<open>abe.BooleanToMSP\<close>, and the package's own time-keyword functions
  \<open>makeTimeKW\<close> and \<open>getBRCKWs\<close>. \<open>jsonUnmarshalCipher\<close> is the content of the fresh
  ciphertext after \<open>json.Unmarshal\<close> has run on it; the owner ignores its error.
\<close>

record externals =
  NewObjectID :: "history \<Rightarrow> ObjectID"
  Hex :: "ObjectID \<Rightarrow> string"
  FormatRFC1123 :: "time \<Rightarrow> string"
  BooleanToMSP :: "string \<Rightarrow> bool \<Rightarrow> failure + MSP"
  jsonMarshalCipher :: "FAMECipher \<Rightarrow> failure + bytes"
  jsonMarshalTkn :: "UpdateTkn \<Rightarrow> failure + bytes"
  jsonUnmarshalCipher :: "bytes \<Rightarrow> FAMECipher"
  jsonMarshalIndent :: "SearcherConfig \<Rightarrow> failure + string"
  bsonMarshalTkn :: "SearchTkn \<Rightarrow> failure + bytes"
  bsonMarshal :: "(string \<rightharpoonup> bsonval) \<Rightarrow> failure + bytes"
  bsonUnmarshal :: "bytes \<Rightarrow> failure + (string \<rightharpoonup> bsonval)"
  makeTimeKW :: "uint64 \<Rightarrow> nat \<Rightarrow> string"
  getBRCKWs :: "uint64 \<Rightarrow> uint64 \<Rightarrow> string list"

text \<open>The owner. Its connection and its logger take no part in what it computes.\<close>

record Owner =
  mfastOwner :: mfastOwner
  aBE :: FAME
  keys :: ownerKeys
  client :: ServerServiceClient
  config :: OwnerConfig

section \<open>The time keywords\<close>

text \<open>
  The first loop of \<open>retriveTkns\<close>: \<open>kws[i] = makeTimeKW(intTime>>i, i)\<close> for
  \<open>i\<close> from 0 to 63. The keyword encoding is a parameter.
\<close>

definition timeKWs :: "(uint64 \<Rightarrow> nat \<Rightarrow> 'k) \<Rightarrow> uint64 \<Rightarrow> 'k list" where
  "timeKWs mk intTime = map (\<lambda>i. mk (drop_bit i intTime) i) [0..<64]"

text \<open>
  An index label is a node of the binary trie over 64-bit values: a level and the value's
  bits above that level. The insertion labels of a value are its time keywords before they
  are encoded as text.
\<close>

record IndexLabel =
  level :: nat
  prefix :: uint64

definition insertionLabels :: "uint64 \<Rightarrow> IndexLabel list" where
  "insertionLabels v = timeKWs (\<lambda>p i. \<lparr>level = i, prefix = p\<rparr>) v"

text \<open>
  Modelled from the spec: the range cover \<open>getBRCKWs\<close> is not in the file. The spec has
  it peel off, again and again, the largest aligned power-of-two block that starts at the
  current lower bound and fits inside the remaining range, emit the block as a label at the
  corresponding level, and continue on the remainder; levels run from 0 to 63.
  \<open>growLevel lo hi i\<close> is the level of that largest block: it grows the block at \<open>lo\<close>
  from level \<open>i\<close> while the next level is still aligned and still fits below \<open>hi\<close>. The
  bounds are the unsigned values of the 64-bit words, so nothing overflows.
\<close>

function growLevel :: "nat \<Rightarrow> nat \<Rightarrow> nat \<Rightarrow> nat" where
  "growLevel lo hi i =
     (if i < 63 \<and> lo mod 2 ^ (i + 1) = 0 \<and> lo + 2 ^ (i + 1) \<le> hi + 1
      then growLevel lo hi (i + 1) else i)"
  by pat_completeness auto
termination
  by (relation "measure (\<lambda>(lo, hi, i). 63 - i)") auto

declare growLevel.simps [simp del]

text \<open>
  Modelled from the spec: the list of the blocks of the range cover \<open>getBRCKWs\<close> (not in
  the file) from \<open>lo\<close> to \<open>hi\<close>, each as the pair of its level and its prefix.
\<close>

function peel :: "nat \<Rightarrow> nat \<Rightarrow> (nat \<times> nat) list" where
  "peel lo hi =
     (if hi < lo then []
      else let i = growLevel lo hi 0 in (i, lo div 2 ^ i) # peel (lo + 2 ^ i) hi)"
  by pat_completeness auto
termination
proof (relation "measure (\<lambda>(lo, hi). hi + 1 - lo)")
  fix lo hi x :: nat
  assume "\<not> hi < lo" and "x = growLevel lo hi 0"
  then have "hi + 1 - (lo + 2 ^ x) < hi + 1 - lo"
    using zero_less_power[of "2::nat" x] by linarith
  then show "((lo + 2 ^ x, hi), (lo, hi)) \<in> measure (\<lambda>(lo, hi). hi + 1 - lo)"
    by simp
qed simp

declare peel.simps [simp del]

text \<open>
  Modelled from the spec: the range cover \<open>getBRCKWs\<close> (not in the file) of two 64-bit
  bounds, as index labels; the spec calls it \<open>rangeCover\<close>.
\<close>

definition rangeCover :: "uint64 \<Rightarrow> uint64 \<Rightarrow> IndexLabel list" where
  "rangeCover a b =
     map (\<lambda>(i, p). \<lparr>level = i, prefix = of_nat p\<rparr>) (peel (unat a) (unat b))"

section \<open>The owner's operations\<close>

subsection \<open>retriveTkns\<close>

text \<open>
  The second loop of \<open>retriveTkns\<close> (its parameter \<open>id\<close> is \<open>id0\<close> here): for each keyword an update token under
  \<open>"A:" + UserId\<close> and one under \<open>"B:" + Location\<close>, both marshalled and appended.
\<close>

fun retriveTkns_loop ::
  "externals \<Rightarrow> Owner \<Rightarrow> ObjectID \<Rightarrow> Record \<Rightarrow> string list \<Rightarrow> Token list \<Rightarrow> history
   \<Rightarrow> (failure + Token list) \<times> history" where
  "retriveTkns_loop X owner id0 rec [] tkns h = (Inr tkns, h)"
| "retriveTkns_loop X owner id0 rec (kw # kws) tkns h =
     (let kwA = ''A:'' @ Record.UserId rec @ '':'' @ kw;
          hA = h @ [EvGenUpdateTkn (Hex X id0) (Record.Set rec) kwA ''add'']
      in case GenUpdateTkn (mfastOwner owner) h (Hex X id0) (Record.Set rec) kwA ''add'' of
           Inl err \<Rightarrow> (Inl err, hA)
         | Inr mfastTknA \<Rightarrow>
             (case jsonMarshalTkn X mfastTknA of
                Inl err \<Rightarrow> (Inl err, hA)
              | Inr bMFastTknA \<Rightarrow>
                  (let kwB = ''B:'' @ Location rec @ '':'' @ kw;
                       hB = hA @ [EvGenUpdateTkn (Hex X id0) (Record.Set rec) kwB ''add'']
                   in case GenUpdateTkn (mfastOwner owner) hA (Hex X id0) (Record.Set rec) kwB ''add'' of
                        Inl err \<Rightarrow> (Inl err, hB)
                      | Inr mfastTknB \<Rightarrow>
                          (case jsonMarshalTkn X mfastTknB of
                             Inl err \<Rightarrow> (Inl err, hB)
                           | Inr bMFastTknB \<Rightarrow>
                               retriveTkns_loop X owner id0 rec kws
                                 (tkns @ [Token bMFastTknA, Token bMFastTknB]) hB))))"

definition retriveTkns_kws :: "externals \<Rightarrow> Record \<Rightarrow> string list" where
  "retriveTkns_kws X rec = timeKWs (makeTimeKW X) (uint64 (Unix (Time rec)))"

definition retriveTkns ::
  "externals \<Rightarrow> Owner \<Rightarrow> ObjectID \<Rightarrow> Record \<Rightarrow> history \<Rightarrow> (failure + Token list) \<times> history" where
  "retriveTkns X owner id0 rec h = retriveTkns_loop X owner id0 rec (retriveTkns_kws X rec) [] h"

subsection \<open>Insert\<close>

text \<open>
  The body of the loop of \<open>Insert\<close> for one record: a fresh identifier, the update
  tokens, the access structure of the record's \<open>Set\<close>, the four fields encrypted and
  marshalled one after the other, and the document marshalled. It returns the record's
  tokens and its document.
\<close>

definition Insert_rec ::
  "externals \<Rightarrow> Owner \<Rightarrow> Record \<Rightarrow> history \<Rightarrow> (failure + Token list \<times> Document) \<times> history" where
  "Insert_rec X owner rec h =
     (let objId = NewObjectID X h; h0 = h @ [EvNewObjectID]
      in case retriveTkns X owner objId rec h0 of
        (Inl err, h1) \<Rightarrow> (Inl err, h1)
      | (Inr partTkns, h1) \<Rightarrow>
     (case BooleanToMSP X (Record.Set rec) False of
        Inl err \<Rightarrow> (Inl err, h1)
      | Inr msp \<Rightarrow>
     (let h2 = h1 @ [EvEncrypt (Record.UserId rec) msp]
      in case Encrypt (aBE owner) h1 (Record.UserId rec) msp (ownerKeys.ABEPK (keys owner)) of
        Inl err \<Rightarrow> (Inl err, h2)
      | Inr newUserId \<Rightarrow>
     (case jsonMarshalCipher X newUserId of
        Inl err \<Rightarrow> (Inl err, h2)
      | Inr bUid \<Rightarrow>
     (let h3 = h2 @ [EvEncrypt (Location rec) msp]
      in case Encrypt (aBE owner) h2 (Location rec) msp (ownerKeys.ABEPK (keys owner)) of
        Inl err \<Rightarrow> (Inl err, h3)
      | Inr newLoc \<Rightarrow>
     (case jsonMarshalCipher X newLoc of
        Inl err \<Rightarrow> (Inl err, h3)
      | Inr bLoc \<Rightarrow>
     (let h4 = h3 @ [EvEncrypt (FormatRFC1123 X (Time rec)) msp]
      in case Encrypt (aBE owner) h3 (FormatRFC1123 X (Time rec)) msp (ownerKeys.ABEPK (keys owner)) of
        Inl err \<Rightarrow> (Inl err, h4)
      | Inr newTime \<Rightarrow>
     (case jsonMarshalCipher X newTime of
        Inl err \<Rightarrow> (Inl err, h4)
      | Inr bTime \<Rightarrow>
     (let h5 = h4 @ [EvEncrypt (Record.Set rec) msp]
      in case Encrypt (aBE owner) h4 (Record.Set rec) msp (ownerKeys.ABEPK (keys owner)) of
        Inl err \<Rightarrow> (Inl err, h5)
      | Inr newSet \<Rightarrow>
     (case jsonMarshalCipher X newSet of
        Inl err \<Rightarrow> (Inl err, h5)
      | Inr bSet \<Rightarrow>
     (case bsonMarshal X
             [''_id'' \<mapsto> ObjectIDValue objId, ''UserId'' \<mapsto> bsonval.Binary bUid,
              ''Location'' \<mapsto> bsonval.Binary bLoc, ''Time'' \<mapsto> bsonval.Binary bTime,
              ''Set'' \<mapsto> bsonval.Binary bSet] of
        Inl err \<Rightarrow> (Inl err, h5)
      | Inr bytesRec \<Rightarrow> (Inr (partTkns, Document bytesRec), h5))))))))))))"

text \<open>
  The loop of \<open>Insert\<close> over the records. The slice \<open>docs\<close> is allocated at its final
  length, filled at index \<open>i\<close> in the \<open>i\<close>-th iteration and read only after the last
  one, so it is the list of the documents in order; an error leaves the function at once.
\<close>

fun Insert_loop ::
  "externals \<Rightarrow> Owner \<Rightarrow> Record list \<Rightarrow> Document list \<Rightarrow> Token list \<Rightarrow> history
   \<Rightarrow> (failure + Document list \<times> Token list) \<times> history" where
  "Insert_loop X owner [] docs tkns h = (Inr (docs, tkns), h)"
| "Insert_loop X owner (rec # recs) docs tkns h =
     (case Insert_rec X owner rec h of
        (Inl err, h') \<Rightarrow> (Inl err, h')
      | (Inr (partTkns, doc), h') \<Rightarrow>
          Insert_loop X owner recs (docs @ [doc]) (tkns @ partTkns) h')"

definition Insert ::
  "externals \<Rightarrow> Owner \<Rightarrow> Record list \<Rightarrow> history \<Rightarrow> (failure + unit) \<times> history" where
  "Insert X owner recs h =
     (case Insert_loop X owner recs [] [] h of
        (Inl err, h1) \<Rightarrow> (Inl err, h1)
      | (Inr (docs, tkns), h1) \<Rightarrow>
          (let q = \<lparr>InsertQuery.Docs = docs, InsertQuery.Tkns = tkns\<rparr>;
               h2 = h1 @ [EvInsert q]
           in case clientInsert (client owner) h1 q of
                Inl err \<Rightarrow> (Inl err, h2)
              | Inr res \<Rightarrow>
                  if InsertResponse.Msg res \<noteq> ''Ok''
                  then (Inl (Error (InsertResponse.Msg res)), h2)
                  else (Inr (), h2)))"

subsection \<open>FindB\<close>

text \<open>
  The trapdoor loop of \<open>FindB\<close> (its parameter \<open>set\<close> is \<open>set0\<close> here): a keyword
  whose search token is nil is passed over; an error ends the call.
\<close>

fun FindB_tkns ::
  "externals \<Rightarrow> Owner \<Rightarrow> string \<Rightarrow> bytes list \<Rightarrow> Token list \<Rightarrow> history
   \<Rightarrow> (failure + Token list) \<times> history" where
  "FindB_tkns X owner set0 [] findTkns h = (Inr findTkns, h)"
| "FindB_tkns X owner set0 (kw # kws) findTkns h =
     (let h' = h @ [EvGenSearchTkn set0 kw]
      in case GenSearchTkn (mfastOwner owner) h set0 kw of
           Inl err \<Rightarrow> (Inl err, h')
         | Inr None \<Rightarrow> FindB_tkns X owner set0 kws findTkns h'
         | Inr (Some searchTkn) \<Rightarrow>
             (case bsonMarshalTkn X searchTkn of
                Inl err \<Rightarrow> (Inl err, h')
              | Inr b \<Rightarrow> FindB_tkns X owner set0 kws (findTkns @ [Token b]) h'))"

text \<open>
  The loop of \<open>FindB\<close> over the returned documents. The type assertion on the
  \<open>UserId\<close> field panics unless the field is there and binary. The error of
  \<open>Decrypt\<close> is dropped (\<open>userId, _ := ...\<close>) and the string is kept. As in
  \<open>Insert\<close>, the result slice is the list of the results in order.
\<close>

fun FindB_docs ::
  "externals \<Rightarrow> Owner \<Rightarrow> string \<Rightarrow> Document list \<Rightarrow> FindBResult list \<Rightarrow> history
   \<Rightarrow> (failure + FindBResult list) \<times> history" where
  "FindB_docs X owner set0 [] results h = (Inr results, h)"
| "FindB_docs X owner set0 (bDoc # bDocs) results h =
     (case bsonUnmarshal X (Document.Binary bDoc) of
        Inl err \<Rightarrow> (Inl err, h)
      | Inr doc \<Rightarrow>
          (case doc ''UserId'' of
             Some (bsonval.Binary dataUserId) \<Rightarrow>
               (let cUserId = jsonUnmarshalCipher X dataUserId;
                    h' = h @ [EvGenerateAttribKeys [set0]]
                in case GenerateAttribKeys (aBE owner) h [set0] (ABESK (keys owner)) of
                     Inl err \<Rightarrow> (Inl err, h')
                   | Inr abeAttrK \<Rightarrow>
                       (let userId = fst (Decrypt (aBE owner) cUserId abeAttrK
                                            (ownerKeys.ABEPK (keys owner)))
                        in FindB_docs X owner set0 bDocs
                             (results @ [\<lparr>FindBResult.UserId = userId\<rparr>]) h'))
           | _ \<Rightarrow> (Inl Panic, h)))"

definition FindB ::
  "externals \<Rightarrow> Owner \<Rightarrow> string \<Rightarrow> string \<Rightarrow> time \<Rightarrow> time \<Rightarrow> history
   \<Rightarrow> (failure + FindBResult list) \<times> history" where
  "FindB X owner set0 loc timeA timeB h =
     (let tKWs = getBRCKWs X (uint64 (Unix timeA)) (uint64 (Unix timeB));
          kws = map (\<lambda>tKW. ''B:'' @ loc @ '':'' @ tKW) tKWs
      in case FindB_tkns X owner set0 kws [] h of
           (Inl err, h1) \<Rightarrow> (Inl err, h1)
         | (Inr findTkns, h1) \<Rightarrow>
             (let findQ = \<lparr>Fields = [''UserId''], FindQuery.Tkns = findTkns\<rparr>;
                  h2 = h1 @ [EvFind findQ]
              in case clientFind (client owner) h1 findQ of
                   Inl err \<Rightarrow> (Inl err, h2)
                 | Inr findRes \<Rightarrow>
                     if FindResponse.Msg findRes \<noteq> ''Ok''
                     then (Inl (Error (FindResponse.Msg findRes)), h2)
                     else FindB_docs X owner set0 (FindResponse.Docs findRes) [] h2))"

subsection \<open>FindB2\<close>

fun FindB2_tkns ::
  "externals \<Rightarrow> Owner \<Rightarrow> string \<Rightarrow> bytes list \<Rightarrow> Token list \<Rightarrow> history
   \<Rightarrow> (failure + Token list) \<times> history" where
  "FindB2_tkns X owner set0 [] findTkns h = (Inr findTkns, h)"
| "FindB2_tkns X owner set0 (kw # kws) findTkns h =
     (let h' = h @ [EvGenSearchTkn set0 kw]
      in case GenSearchTkn (mfastOwner owner) h set0 kw of
           Inl err \<Rightarrow> (Inl err, h')
         | Inr None \<Rightarrow> FindB2_tkns X owner set0 kws findTkns h'
         | Inr (Some searchTkn) \<Rightarrow>
             (case bsonMarshalTkn X searchTkn of
                Inl err \<Rightarrow> (Inl err, h')
              | Inr b \<Rightarrow> FindB2_tkns X owner set0 kws (findTkns @ [Token b]) h'))"

text \<open>
  The loop of \<open>FindB2\<close> over the returned documents. The variable \<open>set\<close> that receives
  the decrypted \<open>Set\<close> field is declared inside the loop body after the attribute keys are
  generated, so the keys are generated for the parameter in every iteration; the new
  variable is \<open>set1\<close> here.
\<close>

fun FindB2_docs ::
  "externals \<Rightarrow> Owner \<Rightarrow> string \<Rightarrow> Document list \<Rightarrow> FindB2Result list \<Rightarrow> history
   \<Rightarrow> (failure + FindB2Result list) \<times> history" where
  "FindB2_docs X owner set0 [] results h = (Inr results, h)"
| "FindB2_docs X owner set0 (bDoc # bDocs) results h =
     (case bsonUnmarshal X (Document.Binary bDoc) of
        Inl err \<Rightarrow> (Inl err, h)
      | Inr doc \<Rightarrow>
          (case doc ''UserId'' of
             Some (bsonval.Binary dataUserId) \<Rightarrow>
               (let cUserId = jsonUnmarshalCipher X dataUserId
                in case doc ''Set'' of
                     Some (bsonval.Binary dataSet) \<Rightarrow>
                       (let cSet = jsonUnmarshalCipher X dataSet;
                            h' = h @ [EvGenerateAttribKeys [set0]]
                        in case GenerateAttribKeys (aBE owner) h [set0] (ABESK (keys owner)) of
                             Inl err \<Rightarrow> (Inl err, h')
                           | Inr abeAttrK \<Rightarrow>
                               (let userId = fst (Decrypt (aBE owner) cUserId abeAttrK
                                                    (ownerKeys.ABEPK (keys owner)));
                                    set1 = fst (Decrypt (aBE owner) cSet abeAttrK
                                                  (ownerKeys.ABEPK (keys owner)))
                                in FindB2_docs X owner set0 bDocs
                                     (results @ [\<lparr>FindB2Result.UserId = userId,
                                                  FindB2Result.Set = set1\<rparr>]) h'))
                   | _ \<Rightarrow> (Inl Panic, h))
           | _ \<Rightarrow> (Inl Panic, h)))"

definition FindB2 ::
  "externals \<Rightarrow> Owner \<Rightarrow> string \<Rightarrow> string \<Rightarrow> time \<Rightarrow> time \<Rightarrow> history
   \<Rightarrow> (failure + FindB2Result list) \<times> history" where
  "FindB2 X owner set0 loc timeA timeB h =
     (let tKWs = getBRCKWs X (uint64 (Unix timeA)) (uint64 (Unix timeB));
          kws = map (\<lambda>tKW. ''B:'' @ loc @ '':'' @ tKW) tKWs
      in case FindB2_tkns X owner set0 kws [] h of
           (Inl err, h1) \<Rightarrow> (Inl err, h1)
         | (Inr findTkns, h1) \<Rightarrow>
             (let findQ = \<lparr>Fields = [''UserId'', ''Set''], FindQuery.Tkns = findTkns\<rparr>;
                  h2 = h1 @ [EvFind findQ]
              in case clientFind (client owner) h1 findQ of
                   Inl err \<Rightarrow> (Inl err, h2)
                 | Inr findRes \<Rightarrow>
                     if FindResponse.Msg findRes \<noteq> ''Ok''
                     then (Inl (Error (FindResponse.Msg findRes)), h2)
                     else FindB2_docs X owner set0 (FindResponse.Docs findRes) [] h2))"

subsection \<open>DelegateKeys and GenSearcherConfig\<close>

definition DelegateKeys ::
  "externals \<Rightarrow> Owner \<Rightarrow> string \<Rightarrow> history \<Rightarrow> (failure + DelegatedKeys) \<times> history" where
  "DelegateKeys X owner set0 h =
     (let h1 = h @ [EvGenerateAttribKeys [set0]]
      in case GenerateAttribKeys (aBE owner) h [set0] (ABESK (keys owner)) of
           Inl err \<Rightarrow> (Inl err, h1)
         | Inr abeAttrK \<Rightarrow>
             (let h2 = h1 @ [EvDelegateKeys set0]
              in case mfastDelegateKeys (mfastOwner owner) h1 set0 of
                   Inl err \<Rightarrow> (Inl err, h2)
                 | Inr mfastKeys \<Rightarrow>
                     (Inr \<lparr>DelegatedKeys.Set = set0, MFastKeys = mfastKeys,
                           ABEAttrK = abeAttrK,
                           DelegatedKeys.ABEPK = ownerKeys.ABEPK (keys owner)\<rparr>, h2)))"

definition GenSearcherConfig ::
  "externals \<Rightarrow> Owner \<Rightarrow> string \<Rightarrow> history \<Rightarrow> (failure + string) \<times> history" where
  "GenSearcherConfig X owner set0 h =
     (case DelegateKeys X owner set0 h of
        (Inl err, h') \<Rightarrow> (Inl err, h')
      | (Inr dk, h') \<Rightarrow>
          (let cfg = \<lparr>SearcherConfig.SetList = OwnerConfig.SetList (config owner),
                      Keys = dk,
                      SearcherConfig.ServerAddr = OwnerConfig.ServerAddr (config owner)\<rparr>
           in case jsonMarshalIndent X cfg of
                Inl err \<Rightarrow> (Inl err, h')
              | Inr jsonCfg \<Rightarrow> (Inr jsonCfg, h')))"

section \<open>The range query with the field list as a parameter\<close>







section \<open>Expected calls and example collaborators\<close>

text \<open>
  The update-token calls that a record with identifier \<open>id0\<close> makes for a list of time
  keywords: for each keyword, in order, one call under \<open>"A:" + UserId\<close> and one under
  \<open>"B:" + Location\<close>, both for the record's \<open>Set\<close> and with operation \<open>"add"\<close>.
\<close>

definition tagEvents :: "externals \<Rightarrow> ObjectID \<Rightarrow> Record \<Rightarrow> string list \<Rightarrow> event list" where
  "tagEvents X id0 rec kws =
     concat (map (\<lambda>kw.
       [EvGenUpdateTkn (Hex X id0) (Record.Set rec) (''A:'' @ Record.UserId rec @ '':'' @ kw) ''add'',
        EvGenUpdateTkn (Hex X id0) (Record.Set rec) (''B:'' @ Location rec @ '':'' @ kw) ''add'']) kws)"

text \<open>
  The encryption calls that a record makes under an access structure: its \<open>UserId\<close>, its
  \<open>Location\<close>, the RFC1123 text of its \<open>Time\<close> and its \<open>Set\<close>, in this order.
\<close>

definition encryptEvents :: "externals \<Rightarrow> Record \<Rightarrow> MSP \<Rightarrow> event list" where
  "encryptEvents X rec msp =
     [EvEncrypt (Record.UserId rec) msp, EvEncrypt (Location rec) msp,
      EvEncrypt (FormatRFC1123 X (Time rec)) msp, EvEncrypt (Record.Set rec) msp]"

text \<open>
  Collaborators for the examples. The access structure of the label \<open>"bad"\<close> cannot be
  compiled; the keyword of the first block of a range has no index entry; the store holds
  one document with both fields.
\<close>

definition exExternals :: externals where
  "exExternals =
     \<lparr>NewObjectID = (\<lambda>h. ObjectID (length h)),
      Hex = (\<lambda>i. case i of ObjectID n \<Rightarrow> replicate n CHR ''f''),
      FormatRFC1123 = (\<lambda>t. ''Thu, 01 Jan 1970 00:00:00 UTC''),
      BooleanToMSP = (\<lambda>s b. if s = ''bad'' then Inl (Error ''policy'') else Inr (MSP (length s))),
      jsonMarshalCipher = (\<lambda>c. case c of FAMECipher n \<Rightarrow> Inr (replicate n CHR ''c'')),
      jsonMarshalTkn = (\<lambda>t. case t of UpdateTkn n \<Rightarrow> Inr (replicate n CHR ''t'')),
      jsonUnmarshalCipher = (\<lambda>b. FAMECipher (length b)),
      jsonMarshalIndent = (\<lambda>c. Inr (DelegatedKeys.Set (Keys c))),
      bsonMarshalTkn = (\<lambda>t. case t of SearchTkn n \<Rightarrow> Inr (replicate n CHR ''s'')),
      bsonMarshal = (\<lambda>m. Inr ''doc''),
      bsonUnmarshal = (\<lambda>b. if b = ''doc''
                           then Inr [''UserId'' \<mapsto> bsonval.Binary ''cc'', ''Set'' \<mapsto> bsonval.Binary ''c'']
                           else if b = ''short'' then Inr [''UserId'' \<mapsto> bsonval.Binary ''cc'']
                           else Inl (Error ''bson'')),
      makeTimeKW = (\<lambda>v i. replicate i CHR ''k''),
      getBRCKWs = (\<lambda>a b. if a \<le> b then [''k'', ''kk''] else [])\<rparr>"

definition exOwner :: Owner where
  "exOwner =
     \<lparr>mfastOwner =
        \<lparr>GenUpdateTkn = (\<lambda>h i s kw op. Inr (UpdateTkn (length kw))),
         GenSearchTkn = (\<lambda>h s kw. if kw = ''B:home:k'' then Inr None
                                    else Inr (Some (SearchTkn (length kw)))),
         mfastDelegateKeys = (\<lambda>h s. Inr (MFastKeys.MFastKeys (length s)))\<rparr>,
      aBE =
        \<lparr>Encrypt = (\<lambda>h m msp pk. Inr (FAMECipher (length m))),
         GenerateAttribKeys = (\<lambda>h attrs sk. Inr (FAMEAttribKeys (length attrs))),
         Decrypt = (\<lambda>c k pk. case c of FAMECipher n \<Rightarrow>
                      (if n = 2 then ''alice'' else ''grpA'', None))\<rparr>,
      keys = \<lparr>ownerKeys.ABEPK = FAMEPubKey 1, ABESK = FAMESecKey 2\<rparr>,
      client =
        \<lparr>clientInsert = (\<lambda>h q. Inr \<lparr>InsertResponse.Msg = ''Ok''\<rparr>),
         clientFind = (\<lambda>h q. Inr \<lparr>FindResponse.Msg = ''Ok'',
                                  FindResponse.Docs = [Document ''doc'']\<rparr>)\<rparr>,
      config = \<lparr>StorePath = ''store'', OwnerConfig.SetList = [''grpA''],
                OwnerConfig.ServerAddr = ''localhost''\<rparr>\<rparr>"

text \<open>The owner of the examples with a store that answers every call with a failure status.\<close>

definition exDownOwner :: Owner where
  "exDownOwner =
     exOwner\<lparr>client :=
        \<lparr>clientInsert = (\<lambda>h q. Inr \<lparr>InsertResponse.Msg = ''disk full''\<rparr>),
         clientFind = (\<lambda>h q. Inr \<lparr>FindResponse.Msg = ''index down'',
                                  FindResponse.Docs = []\<rparr>)\<rparr>\<rparr>"

text \<open>The owner of the examples with an ABE scheme whose decryption fails, as gofe's does,
  with an empty string and an error.\<close>

definition exDeniedOwner :: Owner where
  "exDeniedOwner =
     exOwner\<lparr>aBE := (aBE exOwner)\<lparr>Decrypt := (\<lambda>c k pk. ([], Some (Error ''AccessDenied'')))\<rparr>\<rparr>"

text \<open>The owner of the examples with a store in which nothing matches.\<close>

definition exEmptyOwner :: Owner where
  "exEmptyOwner =
     exOwner\<lparr>client :=
        \<lparr>clientInsert = (\<lambda>h q. Inr \<lparr>InsertResponse.Msg = ''Ok''\<rparr>),
         clientFind = (\<lambda>h q. Inr \<lparr>FindResponse.Msg = ''Ok'', FindResponse.Docs = []\<rparr>)\<rparr>\<rparr>"

definition exRecord :: Record where
  "exRecord = \<lparr>Record.UserId = ''alice'', Location = ''home'', Record.Set = ''grpA'',
                Time = time.Time 1000\<rparr>"

section \<open>The range cover\<close>

lemma growLevel_ok:
  "i \<le> 63 \<Longrightarrow> lo mod 2 ^ i = 0 \<Longrightarrow> lo + 2 ^ i \<le> hi + 1 \<Longrightarrow>
   growLevel lo hi i \<le> 63 \<and> lo mod 2 ^ growLevel lo hi i = 0 \<and> lo + 2 ^ growLevel lo hi i \<le> hi + 1"
proof (induction lo hi i rule: growLevel.induct)
  case (1 lo hi i)
  show ?case
  proof (cases "i < 63 \<and> lo mod 2 ^ (i + 1) = 0 \<and> lo + 2 ^ (i + 1) \<le> hi + 1")
    case True
    then have "growLevel lo hi i = growLevel lo hi (i + 1)"
      by (subst growLevel.simps) simp
    moreover have "growLevel lo hi (i + 1) \<le> 63 \<and> lo mod 2 ^ growLevel lo hi (i + 1) = 0
        \<and> lo + 2 ^ growLevel lo hi (i + 1) \<le> hi + 1"
      using True by (intro "1.IH") auto
    ultimately show ?thesis by simp
  next
    case False
    then have "growLevel lo hi i = i"
      by (subst growLevel.simps) auto
    with "1.prems" show ?thesis by simp
  qed
qed

lemma block_match:
  fixes lo v :: nat
  assumes "lo mod 2 ^ i = 0"
  shows "(v div 2 ^ i = lo div 2 ^ i) = (lo \<le> v \<and> v < lo + 2 ^ i)"
proof -
  define q where "q = lo div 2 ^ i"
  have lo: "lo = q * 2 ^ i" using assms by (auto simp: q_def)
  have "(v div 2 ^ i = q) = (q * 2 ^ i \<le> v \<and> v < Suc q * 2 ^ i)"
    by (auto simp: div_nat_eqI less_mult_imp_div_less dividend_less_times_div mult.commute
        simp flip: div_le_mono)
  then show ?thesis unfolding q_def[symmetric] lo by (simp add: add.commute)
qed


lemma peel_count:
  "length (filter (\<lambda>(i, p). v div 2 ^ i = p) (peel lo hi)) = (if lo \<le> v \<and> v \<le> hi then 1 else 0)"
proof (induction lo hi rule: peel.induct)
  case (1 lo hi)
  show ?case
  proof (cases "hi < lo")
    case True
    then show ?thesis by (subst peel.simps) simp
  next
    case False
    define i where "i = growLevel lo hi 0"
    have ok: "i \<le> 63 \<and> lo mod 2 ^ i = 0 \<and> lo + 2 ^ i \<le> hi + 1"
      unfolding i_def using False by (intro growLevel_ok) auto
    have unf: "peel lo hi = (i, lo div 2 ^ i) # peel (lo + 2 ^ i) hi"
      using False by (subst peel.simps) (simp add: i_def Let_def)
    have IH: "length (filter (\<lambda>(i, p). v div 2 ^ i = p) (peel (lo + 2 ^ i) hi))
        = (if lo + 2 ^ i \<le> v \<and> v \<le> hi then 1 else 0)"
      using "1.IH"[OF False i_def] .
    have bm: "(v div 2 ^ i = lo div 2 ^ i) = (lo \<le> v \<and> v < lo + 2 ^ i)"
      using ok by (intro block_match) simp
    have "length (filter (\<lambda>(i, p). v div 2 ^ i = p) (peel lo hi))
        = (if v div 2 ^ i = lo div 2 ^ i then 1 else 0)
          + length (filter (\<lambda>(i, p). v div 2 ^ i = p) (peel (lo + 2 ^ i) hi))"
      unfolding unf by simp
    also have "\<dots> = (if lo \<le> v \<and> v < lo + 2 ^ i then 1 else 0)
          + (if lo + 2 ^ i \<le> v \<and> v \<le> hi then 1 else 0)"
      unfolding IH bm ..
    also have "\<dots> = (if lo \<le> v \<and> v \<le> hi then 1 else 0)"
      using ok by (simp split: if_splits)
    finally show ?thesis .
  qed
qed

lemma peel_bounds:
  "(i, p) \<in> set (peel lo hi) \<Longrightarrow> i \<le> 63 \<and> p \<le> hi"
proof (induction lo hi rule: peel.induct)
  case (1 lo hi)
  show ?case
  proof (cases "hi < lo")
    case True
    with "1.prems" show ?thesis by (subst (asm) peel.simps) simp
  next
    case False
    define j where "j = growLevel lo hi 0"
    have ok: "j \<le> 63 \<and> lo mod 2 ^ j = 0 \<and> lo + 2 ^ j \<le> hi + 1"
      unfolding j_def using False by (intro growLevel_ok) auto
    have unf: "peel lo hi = (j, lo div 2 ^ j) # peel (lo + 2 ^ j) hi"
      using False by (subst peel.simps) (simp add: j_def Let_def)
    have "lo div 2 ^ j \<le> lo" by simp
    with False have "lo div 2 ^ j \<le> hi" by linarith
    with "1.prems" ok "1.IH"[OF False j_def] show ?thesis unfolding unf by auto
  qed
qed


lemma mem_insertionLabels:
  "l \<in> set (insertionLabels v) \<longleftrightarrow> level l < 64 \<and> prefix l = drop_bit (level l) v"
  by (cases l) (auto simp: insertionLabels_def timeKWs_def)

lemma of_nat_eq_drop_bit:
  fixes v :: uint64
  assumes "p < 2 ^ 64"
  shows "(of_nat p = drop_bit i v) = (unat v div 2 ^ i = p)"
proof -
  have "unat (of_nat p :: uint64) = p" using assms by (simp add: unat_of_nat)
  moreover have "unat (drop_bit i v) = unat v div 2 ^ i"
    using unat_drop_bit_eq[of i v] drop_bit_eq_div[of i "unat v"] by (rule trans)
  ultimately show ?thesis by (metis word_unat_eq_iff)
qed

lemma filter_rangeCover:
  "filter (\<lambda>l. l \<in> set (insertionLabels v)) (rangeCover a b)
   = map (\<lambda>(i, p). \<lparr>level = i, prefix = of_nat p\<rparr>)
       (filter (\<lambda>(i, p). unat v div 2 ^ i = p) (peel (unat a) (unat b)))"
proof -
  have "\<And>i p. (i, p) \<in> set (peel (unat a) (unat b)) \<Longrightarrow>
      (\<lparr>level = i, prefix = of_nat p\<rparr> \<in> set (insertionLabels v)) = (unat v div 2 ^ i = p)"
  proof -
    fix i p assume "(i, p) \<in> set (peel (unat a) (unat b))"
    then have b: "i \<le> 63 \<and> p \<le> unat b" by (rule peel_bounds)
    moreover have "unat b < 2 ^ 64" using unsigned_less[of b] by simp
    ultimately have "p < 2 ^ 64" by linarith
    then show "(\<lparr>level = i, prefix = of_nat p\<rparr> \<in> set (insertionLabels v)) = (unat v div 2 ^ i = p)"
      using b by (simp add: mem_insertionLabels of_nat_eq_drop_bit)
  qed
  then show ?thesis
    unfolding rangeCover_def filter_map
    by (intro arg_cong[where f = "map _"] filter_cong) (auto simp: o_def)
qed

lemma rangeCover_matches:
  "length (filter (\<lambda>l. l \<in> set (insertionLabels v)) (rangeCover a b))
   = (if a \<le> v \<and> v \<le> b then 1 else 0)"
  by (simp add: filter_rangeCover peel_count word_le_nat_alt)

lemma retriveTkns_kws_labels:
  "retriveTkns_kws X rec
     = map (\<lambda>l. makeTimeKW X (prefix l) (level l)) (insertionLabels (uint64 (Unix (Time rec))))"
  by (simp add: retriveTkns_kws_def insertionLabels_def timeKWs_def)

text \<open>
  Claim C1. For bounds \<open>a \<le> b\<close> and every 64-bit value \<open>v\<close>: \<open>v\<close> lies in the range
  from \<open>a\<close> to \<open>b\<close> exactly when the insertion labels of \<open>v\<close> and the range cover of the
  bounds have a label in common; and when \<open>v\<close> lies in the range, they have exactly one
  label in common, which occurs once in the cover. The insertion labels are the labels
  that \<open>retriveTkns\<close> encodes as the time keywords of a record.
\<close>

theorem rangeCover_correct:
  assumes "a \<le> b"
  shows "((a \<le> v \<and> v \<le> b) \<longleftrightarrow> set (insertionLabels v) \<inter> set (rangeCover a b) \<noteq> {})
       \<and> (a \<le> v \<and> v \<le> b \<longrightarrow>
            card (set (insertionLabels v) \<inter> set (rangeCover a b)) = 1
          \<and> length (filter (\<lambda>l. l \<in> set (insertionLabels v)) (rangeCover a b)) = 1)
       \<and> retriveTkns_kws X rec
           = map (\<lambda>l. makeTimeKW X (prefix l) (level l))
               (insertionLabels (uint64 (Unix (Time rec))))"
proof -
  let ?F = "filter (\<lambda>l. l \<in> set (insertionLabels v)) (rangeCover a b)"
  have S: "set (insertionLabels v) \<inter> set (rangeCover a b) = set ?F" by auto
  have L: "length ?F = (if a \<le> v \<and> v \<le> b then 1 else 0)" by (rule rangeCover_matches)
  show ?thesis
  proof (cases "a \<le> v \<and> v \<le> b")
    case True
    with L have "length ?F = 1" by simp
    then obtain x where "?F = [x]" by (cases ?F) auto
    with True show ?thesis unfolding S by (simp add: retriveTkns_kws_labels)
  next
    case False
    with L have "?F = []" by simp
    with False show ?thesis unfolding S by (simp add: retriveTkns_kws_labels)
  qed
qed

theorem rangeCover_correct_witness:
  "(5 :: uint64) \<le> 9 \<and>
   ((5 \<le> (7 :: uint64) \<and> (7 :: uint64) \<le> 9)
      \<longleftrightarrow> set (insertionLabels 7) \<inter> set (rangeCover 5 9) \<noteq> {})
   \<and> card (set (insertionLabels 7) \<inter> set (rangeCover 5 9)) = 1"
  using rangeCover_correct[of 5 9 7] by simp

section \<open>Times before the epoch\<close>

lemma uint_uint64: "uint (uint64 x) = sint x mod 2 ^ 64"
  unfolding uint64_def by (simp only: uint_word_of_int) simp

text \<open>
  Claim C10. \<open>Insert\<close> and the two query methods convert a time with
  \<open>uint64(Time.Unix())\<close>. For a time before the epoch the converted value is
  \<open>2 ^ 64\<close> plus the (negative) second count. For a query from a time before the epoch to
  a time at or after it, the converted lower bound is above the converted upper bound, and
  no 64-bit value lies between the two.
\<close>

theorem uint64_before_epoch:
  "(sint (Unix t) < 0 \<longrightarrow> uint (uint64 (Unix t)) = 2 ^ 64 + sint (Unix t))
   \<and> (sint (Unix timeA) < 0 \<and> 0 \<le> sint (Unix timeB) \<longrightarrow>
        uint64 (Unix timeB) < uint64 (Unix timeA)
        \<and> (\<forall>v. \<not> (uint64 (Unix timeA) \<le> v \<and> v \<le> uint64 (Unix timeB))))"
proof -
  have neg: "uint (uint64 x) = 2 ^ 64 + sint x" if "sint x < 0" for x :: int64
  proof -
    have "- (2 ^ 63) \<le> sint x" using sint_ge[of x] by simp
    with that have "(sint x + 2 ^ 64) mod 2 ^ 64 = sint x + 2 ^ 64"
      by (intro mod_pos_pos_trivial) auto
    then have "sint x mod 2 ^ 64 = 2 ^ 64 + sint x" by simp
    then show ?thesis by (simp only: uint_uint64)
  qed
  have pos: "uint (uint64 x) = sint x" if "0 \<le> sint x" for x :: int64
  proof -
    have "sint x < 2 ^ 63" using sint_lt[of x] by simp
    with that show ?thesis by (simp only: uint_uint64) simp
  qed
  have lt: "uint64 (Unix timeB) < uint64 (Unix timeA)"
    if "sint (Unix timeA) < 0" "0 \<le> sint (Unix timeB)"
  proof -
    have "- (2 ^ 63) \<le> sint (Unix timeA)" using sint_ge[of "Unix timeA"] by simp
    moreover have "sint (Unix timeB) < 2 ^ 63" using sint_lt[of "Unix timeB"] by simp
    ultimately have "uint (uint64 (Unix timeB)) < uint (uint64 (Unix timeA))"
      using that by (simp only: neg pos) simp
    then show ?thesis by (simp add: word_less_def)
  qed
  show ?thesis using neg[of "Unix t"] lt by auto
qed

theorem uint64_before_epoch_witness:
  "sint (Unix (time.Time (- 5))) < 0 \<and> 0 \<le> sint (Unix (time.Time 7))
   \<and> uint (uint64 (Unix (time.Time (- 5)))) = 2 ^ 64 + sint (Unix (time.Time (- 5)))
   \<and> uint64 (Unix (time.Time 7)) < uint64 (Unix (time.Time (- 5)))"
  using uint64_before_epoch[of "time.Time (- 5)" "time.Time (- 5)" "time.Time 7"] by simp

section \<open>The update tokens of a record\<close>

lemma retriveTkns_loop_Inr:
  "retriveTkns_loop X owner id0 rec kws tkns h = (Inr out, h') \<Longrightarrow>
     h' = h @ tagEvents X id0 rec kws \<and> (\<exists>new. out = tkns @ new \<and> length new = 2 * length kws)"
proof (induction kws arbitrary: tkns h)
  case Nil
  then show ?case by (simp add: tagEvents_def)
next
  case (Cons kw kws)
  from Cons.prems show ?case
    by (auto simp: Let_def tagEvents_def split: sum.splits dest!: Cons.IH)
qed

lemma tagEvents_Cons:
  "tagEvents X id0 rec (kw # kws) =
     EvGenUpdateTkn (Hex X id0) (Record.Set rec) (''A:'' @ Record.UserId rec @ '':'' @ kw) ''add''
     # EvGenUpdateTkn (Hex X id0) (Record.Set rec) (''B:'' @ Location rec @ '':'' @ kw) ''add''
     # tagEvents X id0 rec kws"
  by (simp add: tagEvents_def)

lemma length_tagEvents: "length (tagEvents X id0 rec kws) = 2 * length kws"
  by (induction kws) (simp_all add: tagEvents_Cons, simp add: tagEvents_def)

lemma retriveTkns_loop_calls:
  "retriveTkns_loop X owner id0 rec kws tkns h = (Inr out, h') \<Longrightarrow> i < length kws \<Longrightarrow>
   \<exists>tA tB bA bB.
     GenUpdateTkn (mfastOwner owner) (h @ take (2 * i) (tagEvents X id0 rec kws)) (Hex X id0)
       (Record.Set rec) (''A:'' @ Record.UserId rec @ '':'' @ kws ! i) ''add'' = Inr tA
     \<and> jsonMarshalTkn X tA = Inr bA \<and> out ! (length tkns + 2 * i) = Token bA
     \<and> GenUpdateTkn (mfastOwner owner) (h @ take (2 * i + 1) (tagEvents X id0 rec kws)) (Hex X id0)
         (Record.Set rec) (''B:'' @ Location rec @ '':'' @ kws ! i) ''add'' = Inr tB
     \<and> jsonMarshalTkn X tB = Inr bB \<and> out ! (length tkns + 2 * i + 1) = Token bB"
proof (induction kws arbitrary: tkns h i)
  case Nil
  then show ?case by simp
next
  case (Cons kw kws)
  let ?evA = "EvGenUpdateTkn (Hex X id0) (Record.Set rec) (''A:'' @ Record.UserId rec @ '':'' @ kw) ''add''"
  let ?evB = "EvGenUpdateTkn (Hex X id0) (Record.Set rec) (''B:'' @ Location rec @ '':'' @ kw) ''add''"
  from Cons.prems(1) obtain tA bA tB bB where
    A: "GenUpdateTkn (mfastOwner owner) h (Hex X id0) (Record.Set rec)
          (''A:'' @ Record.UserId rec @ '':'' @ kw) ''add'' = Inr tA" "jsonMarshalTkn X tA = Inr bA"
    and B: "GenUpdateTkn (mfastOwner owner) (h @ [?evA]) (Hex X id0) (Record.Set rec)
          (''B:'' @ Location rec @ '':'' @ kw) ''add'' = Inr tB" "jsonMarshalTkn X tB = Inr bB"
    and R: "retriveTkns_loop X owner id0 rec kws (tkns @ [Token bA, Token bB]) (h @ [?evA, ?evB])
          = (Inr out, h')"
    by (auto simp: Let_def split: sum.splits)
  show ?case
  proof (cases i)
    case 0
    from retriveTkns_loop_Inr[OF R] obtain new where "out = (tkns @ [Token bA, Token bB]) @ new"
      by blast
    then have "out ! length tkns = Token bA" "out ! Suc (length tkns) = Token bB"
      by (simp_all add: nth_append)
    with 0 A B show ?thesis by (simp add: tagEvents_Cons)
  next
    case (Suc j)
    with Cons.prems(2) have j: "j < length kws" by simp
    from Cons.IH[OF R j] Suc show ?thesis by (simp add: tagEvents_Cons)
  qed
qed

lemma length_timeKWs: "length (timeKWs mk v) = 64"
  by (simp add: timeKWs_def)

lemma nth_timeKWs: "i < 64 \<Longrightarrow> timeKWs mk v ! i = mk (drop_bit i v) i"
  unfolding timeKWs_def by (simp del: upt_Suc)

text \<open>
  Claim C4. When \<open>retriveTkns\<close> returns tokens for a record, it has built exactly 64 time
  keywords, the keyword at level \<open>i\<close> being \<open>makeTimeKW\<close> of the value
  \<open>uint64(Time.Unix()) >> i\<close> and of \<open>i\<close>; it has made exactly the calls of
  \<open>tagEvents\<close>, two per level, the first under \<open>"A:"\<close> and the record's \<open>UserId\<close>, the
  second under \<open>"B:"\<close> and its \<open>Location\<close>; and it returns exactly 128 tokens, the tokens
  at positions \<open>2 * i\<close> and \<open>2 * i + 1\<close> being the marshalled answers to the two calls of
  level \<open>i\<close>.
\<close>

theorem retriveTkns_shape:
  assumes "retriveTkns X owner id0 rec h = (Inr tkns, h')"
  shows "length (retriveTkns_kws X rec) = 64
     \<and> (\<forall>i<64. retriveTkns_kws X rec ! i
                 = makeTimeKW X (drop_bit i (uint64 (Unix (Time rec)))) i)
     \<and> length tkns = 128
     \<and> h' = h @ tagEvents X id0 rec (retriveTkns_kws X rec)
     \<and> (\<forall>i<64. \<exists>tA tB bA bB.
          GenUpdateTkn (mfastOwner owner)
              (h @ take (2 * i) (tagEvents X id0 rec (retriveTkns_kws X rec))) (Hex X id0)
              (Record.Set rec) (''A:'' @ Record.UserId rec @ '':'' @ retriveTkns_kws X rec ! i)
              ''add'' = Inr tA
          \<and> jsonMarshalTkn X tA = Inr bA \<and> tkns ! (2 * i) = Token bA
          \<and> GenUpdateTkn (mfastOwner owner)
              (h @ take (2 * i + 1) (tagEvents X id0 rec (retriveTkns_kws X rec))) (Hex X id0)
              (Record.Set rec) (''B:'' @ Location rec @ '':'' @ retriveTkns_kws X rec ! i)
              ''add'' = Inr tB
          \<and> jsonMarshalTkn X tB = Inr bB \<and> tkns ! (2 * i + 1) = Token bB)"
proof -
  let ?kws = "retriveTkns_kws X rec"
  have len: "length ?kws = 64" by (simp add: retriveTkns_kws_def length_timeKWs)
  have nth: "\<forall>i<64. ?kws ! i = makeTimeKW X (drop_bit i (uint64 (Unix (Time rec)))) i"
    by (simp add: retriveTkns_kws_def nth_timeKWs)
  from assms have L: "retriveTkns_loop X owner id0 rec ?kws [] h = (Inr tkns, h')"
    by (simp add: retriveTkns_def)
  from retriveTkns_loop_Inr[OF L] len have h': "h' = h @ tagEvents X id0 rec ?kws"
    and lt: "length tkns = 128" by auto
  have calls: "\<exists>tA tB bA bB.
          GenUpdateTkn (mfastOwner owner) (h @ take (2 * i) (tagEvents X id0 rec ?kws)) (Hex X id0)
              (Record.Set rec) (''A:'' @ Record.UserId rec @ '':'' @ ?kws ! i) ''add'' = Inr tA
          \<and> jsonMarshalTkn X tA = Inr bA \<and> tkns ! (2 * i) = Token bA
          \<and> GenUpdateTkn (mfastOwner owner) (h @ take (2 * i + 1) (tagEvents X id0 rec ?kws)) (Hex X id0)
              (Record.Set rec) (''B:'' @ Location rec @ '':'' @ ?kws ! i) ''add'' = Inr tB
          \<and> jsonMarshalTkn X tB = Inr bB \<and> tkns ! (2 * i + 1) = Token bB" if "i < 64" for i
    using retriveTkns_loop_calls[OF L, of i] that len by simp
  from len nth lt h' calls show ?thesis by blast
qed

lemma ex_retriveTkns: "\<not> isl (fst (retriveTkns exExternals exOwner (ObjectID 0) exRecord []))"
  by code_simp

theorem retriveTkns_shape_witness:
  "\<exists>tkns h'. retriveTkns exExternals exOwner (ObjectID 0) exRecord [] = (Inr tkns, h')
     \<and> length tkns = 128
     \<and> h' = tagEvents exExternals (ObjectID 0) exRecord (retriveTkns_kws exExternals exRecord)"
proof -
  obtain r h' where rh: "retriveTkns exExternals exOwner (ObjectID 0) exRecord [] = (r, h')"
    by (cases "retriveTkns exExternals exOwner (ObjectID 0) exRecord []")
  with ex_retriveTkns obtain tkns where "r = Inr tkns" by (cases r) auto
  with rh have eq: "retriveTkns exExternals exOwner (ObjectID 0) exRecord [] = (Inr tkns, h')"
    by simp
  from retriveTkns_shape[OF eq] eq show ?thesis by simp
qed

section \<open>The batch is encrypted before the store is called\<close>

lemma filter_tagEvents:
  "filter isRPC (tagEvents X id0 rec kws) = [] \<and> filter isEncrypt (tagEvents X id0 rec kws) = []"
  by (induction kws) (simp_all add: tagEvents_Cons, simp_all add: tagEvents_def)

lemma retriveTkns_loop_history:
  "retriveTkns_loop X owner id0 rec kws tkns h = (r, h') \<Longrightarrow>
     \<exists>es. h' = h @ es \<and> filter isRPC es = [] \<and> filter isEncrypt es = []"
proof (induction kws arbitrary: tkns h)
  case Nil
  then show ?case by simp
next
  case (Cons kw kws)
  from Cons.prems show ?case
    by (fastforce simp: Let_def split: sum.splits dest!: Cons.IH)
qed

lemma retriveTkns_history:
  "retriveTkns X owner id0 rec h = (r, h') \<Longrightarrow>
     \<exists>es. h' = h @ es \<and> filter isRPC es = [] \<and> filter isEncrypt es = []"
  unfolding retriveTkns_def by (rule retriveTkns_loop_history)

lemma Insert_rec_history:
  assumes "Insert_rec X owner rec h = (r, h')"
  shows "\<exists>es. h' = h @ es \<and> filter isRPC es = []"
proof -
  obtain r1 h1 where R: "retriveTkns X owner (NewObjectID X h) rec (h @ [EvNewObjectID]) = (r1, h1)"
    by (cases "retriveTkns X owner (NewObjectID X h) rec (h @ [EvNewObjectID])")
  from retriveTkns_history[OF R] obtain es where
    es: "h1 = h @ [EvNewObjectID] @ es" "filter isRPC es = []" by auto
  from assms R es show ?thesis
    unfolding Insert_rec_def Let_def
    by (auto split: sum.splits)
qed


lemma retriveTkns_Inr_length:
  "retriveTkns X owner id0 rec h = (Inr tkns, h') \<Longrightarrow>
     length tkns = 128 \<and> h' = h @ tagEvents X id0 rec (retriveTkns_kws X rec)"
  unfolding retriveTkns_def
  by (auto dest!: retriveTkns_loop_Inr simp: retriveTkns_kws_def length_timeKWs)

lemma Insert_rec_Inr:
  assumes "Insert_rec X owner rec h = (Inr (partTkns, doc), h')"
  shows "\<exists>msp h1 cU cL cT cS bU bL bT bS.
      retriveTkns X owner (NewObjectID X h) rec (h @ [EvNewObjectID]) = (Inr partTkns, h1)
    \<and> BooleanToMSP X (Record.Set rec) False = Inr msp
    \<and> Encrypt (aBE owner) h1 (Record.UserId rec) msp (ownerKeys.ABEPK (keys owner)) = Inr cU
    \<and> jsonMarshalCipher X cU = Inr bU
    \<and> Encrypt (aBE owner) (h1 @ [EvEncrypt (Record.UserId rec) msp]) (Location rec) msp
         (ownerKeys.ABEPK (keys owner)) = Inr cL
    \<and> jsonMarshalCipher X cL = Inr bL
    \<and> Encrypt (aBE owner) (h1 @ [EvEncrypt (Record.UserId rec) msp, EvEncrypt (Location rec) msp])
         (FormatRFC1123 X (Time rec)) msp (ownerKeys.ABEPK (keys owner)) = Inr cT
    \<and> jsonMarshalCipher X cT = Inr bT
    \<and> Encrypt (aBE owner) (h1 @ [EvEncrypt (Record.UserId rec) msp, EvEncrypt (Location rec) msp,
                                 EvEncrypt (FormatRFC1123 X (Time rec)) msp])
         (Record.Set rec) msp (ownerKeys.ABEPK (keys owner)) = Inr cS
    \<and> jsonMarshalCipher X cS = Inr bS
    \<and> bsonMarshal X
         [''_id'' \<mapsto> ObjectIDValue (NewObjectID X h), ''UserId'' \<mapsto> bsonval.Binary bU,
          ''Location'' \<mapsto> bsonval.Binary bL, ''Time'' \<mapsto> bsonval.Binary bT,
          ''Set'' \<mapsto> bsonval.Binary bS] = Inr (Document.Binary doc)
    \<and> h' = h1 @ [EvEncrypt (Record.UserId rec) msp, EvEncrypt (Location rec) msp,
                 EvEncrypt (FormatRFC1123 X (Time rec)) msp, EvEncrypt (Record.Set rec) msp]"
  using assms unfolding Insert_rec_def Let_def
  by (auto split: prod.splits sum.splits)

lemma Insert_loop_history:
  "Insert_loop X owner recs docs tkns h = (r, h') \<Longrightarrow> \<exists>es. h' = h @ es \<and> filter isRPC es = []"
proof (induction recs arbitrary: docs tkns h)
  case Nil
  then show ?case by simp
next
  case (Cons rec recs)
  obtain r1 h1 where R: "Insert_rec X owner rec h = (r1, h1)"
    by (cases "Insert_rec X owner rec h")
  from Insert_rec_history[OF R] obtain es where es: "h1 = h @ es" "filter isRPC es = []" by auto
  show ?case
  proof (cases r1)
    case (Inl err)
    with Cons.prems R es show ?thesis by auto
  next
    case (Inr pd)
    obtain partTkns doc where pd: "pd = (partTkns, doc)" by (cases pd)
    from Cons.prems R Inr pd
    have "Insert_loop X owner recs (docs @ [doc]) (tkns @ partTkns) h1 = (r, h')" by simp
    from Cons.IH[OF this] es show ?thesis by auto
  qed
qed

lemma Insert_loop_append:
  "Insert_loop X owner recs1 docs tkns h = (Inr (docs1, tkns1), h1) \<Longrightarrow>
     Insert_loop X owner (recs1 @ recs2) docs tkns h = Insert_loop X owner recs2 docs1 tkns1 h1"
  by (induction recs1 arbitrary: docs tkns h) (auto split: prod.splits sum.splits)

lemma Insert_loop_lengths:
  "Insert_loop X owner recs docs tkns h = (Inr (docs', tkns'), h') \<Longrightarrow>
     length docs' = length docs + length recs \<and> length tkns' = length tkns + 128 * length recs"
proof (induction recs arbitrary: docs tkns h)
  case Nil
  then show ?case by simp
next
  case (Cons rec recs)
  from Cons.prems obtain partTkns doc h1 where
    R: "Insert_rec X owner rec h = (Inr (partTkns, doc), h1)"
    and L: "Insert_loop X owner recs (docs @ [doc]) (tkns @ partTkns) h1 = (Inr (docs', tkns'), h')"
    by (auto split: prod.splits sum.splits)
  from Insert_rec_Inr[OF R] have "length partTkns = 128"
    by (auto dest: retriveTkns_Inr_length)
  with Cons.IH[OF L] show ?case by simp
qed


lemma Insert_reaches_store:
  assumes "Insert X owner recs h = (r, h')" and "filter isRPC (drop (length h) h') \<noteq> []"
  shows "\<exists>docs tkns h1. Insert_loop X owner recs [] [] h = (Inr (docs, tkns), h1)
           \<and> h' = h1 @ [EvInsert \<lparr>InsertQuery.Docs = docs, InsertQuery.Tkns = tkns\<rparr>]
           \<and> filter isRPC (drop (length h) h1) = []"
proof -
  obtain r1 h1 where L: "Insert_loop X owner recs [] [] h = (r1, h1)"
    by (cases "Insert_loop X owner recs [] [] h")
  from Insert_loop_history[OF L] obtain es where es: "h1 = h @ es" "filter isRPC es = []" by auto
  show ?thesis
  proof (cases r1)
    case (Inl err)
    with assms L es show ?thesis by (auto simp: Insert_def)
  next
    case (Inr dt)
    obtain docs tkns where "dt = (docs, tkns)" by (cases dt)
    with assms(1) L Inr es show ?thesis
      by (auto simp: Insert_def Let_def split: sum.splits if_splits)
  qed
qed

text \<open>
  Claim C3. If the records before a record are encrypted and tagged and the body of the
  loop fails on that record (an update token, the access structure, an encryption or a
  marshalling fails), \<open>Insert\<close> returns that error and has made no call to the store.
  And whenever \<open>Insert\<close> has made a call to the store, the loop had succeeded on every
  record of the batch: the one call is the last event, it carries one document for each
  record and 128 tokens for each record, and no call to the store came before it.
\<close>

theorem Insert_aborts_before_network:
  "(Insert_loop X owner recs1 [] [] h = (Inr (docs1, tkns1), h1)
      \<and> Insert_rec X owner rec h1 = (Inl err, h2)
    \<longrightarrow> Insert X owner (recs1 @ rec # recs2) h = (Inl err, h2)
        \<and> filter isRPC (drop (length h) h2) = [])
   \<and> (Insert X owner recs h = (r, h') \<and> filter isRPC (drop (length h) h') \<noteq> []
    \<longrightarrow> (\<exists>docs tkns h3.
           Insert_loop X owner recs [] [] h = (Inr (docs, tkns), h3)
         \<and> length docs = length recs \<and> length tkns = 128 * length recs
         \<and> h' = h3 @ [EvInsert \<lparr>InsertQuery.Docs = docs, InsertQuery.Tkns = tkns\<rparr>]
         \<and> filter isRPC (drop (length h) h3) = []))"
proof (intro conjI impI)
  assume A: "Insert_loop X owner recs1 [] [] h = (Inr (docs1, tkns1), h1)
      \<and> Insert_rec X owner rec h1 = (Inl err, h2)"
  then have "Insert_loop X owner (recs1 @ rec # recs2) [] [] h = (Inl err, h2)"
    by (simp add: Insert_loop_append)
  then show "Insert X owner (recs1 @ rec # recs2) h = (Inl err, h2)"
    by (simp add: Insert_def)
  from A Insert_loop_history[of X owner recs1 "[]" "[]" h] Insert_rec_history[of X owner rec h1]
  show "filter isRPC (drop (length h) h2) = []" by auto
next
  assume "Insert X owner recs h = (r, h') \<and> filter isRPC (drop (length h) h') \<noteq> []"
  then obtain docs tkns h3 where
    L: "Insert_loop X owner recs [] [] h = (Inr (docs, tkns), h3)"
    and h': "h' = h3 @ [EvInsert \<lparr>InsertQuery.Docs = docs, InsertQuery.Tkns = tkns\<rparr>]"
    and n: "filter isRPC (drop (length h) h3) = []"
    using Insert_reaches_store by blast
  from Insert_loop_lengths[OF L] L h' n
  show "\<exists>docs tkns h3.
           Insert_loop X owner recs [] [] h = (Inr (docs, tkns), h3)
         \<and> length docs = length recs \<and> length tkns = 128 * length recs
         \<and> h' = h3 @ [EvInsert \<lparr>InsertQuery.Docs = docs, InsertQuery.Tkns = tkns\<rparr>]
         \<and> filter isRPC (drop (length h) h3) = []" by simp
qed



lemma ex_Insert_rec_bad:
  "\<exists>h2. Insert_rec exExternals exOwner (exRecord\<lparr>Record.Set := ''bad''\<rparr>) []
           = (Inl (Error ''policy''), h2)"
proof -
  have "fst (Insert_rec exExternals exOwner (exRecord\<lparr>Record.Set := ''bad''\<rparr>) [])
          = Inl (Error ''policy'')"
    by code_simp
  then show ?thesis
    by (cases "Insert_rec exExternals exOwner (exRecord\<lparr>Record.Set := ''bad''\<rparr>) []") auto
qed

lemma ex_Insert:
  "\<exists>h'. Insert exExternals exOwner [exRecord] [] = (Inr (), h') \<and> filter isRPC h' \<noteq> []"
proof -
  have "case Insert exExternals exOwner [exRecord] [] of
          (r, h') \<Rightarrow> r = Inr () \<and> filter isRPC h' \<noteq> []"
    by code_simp
  then show ?thesis by (cases "Insert exExternals exOwner [exRecord] []") auto
qed

theorem Insert_aborts_before_network_witness:
  "(\<exists>h2. Insert exExternals exOwner ([] @ exRecord\<lparr>Record.Set := ''bad''\<rparr> # [exRecord]) []
            = (Inl (Error ''policy''), h2) \<and> filter isRPC h2 = [])
   \<and> (\<exists>docs tkns h3. Insert exExternals exOwner [exRecord] []
            = (Inr (), h3 @ [EvInsert \<lparr>InsertQuery.Docs = docs, InsertQuery.Tkns = tkns\<rparr>])
          \<and> length docs = 1 \<and> length tkns = 128 \<and> filter isRPC h3 = [])"
proof
  let ?bad = "exRecord\<lparr>Record.Set := ''bad''\<rparr>"
  from ex_Insert_rec_bad obtain h2 where
    R: "Insert_rec exExternals exOwner ?bad [] = (Inl (Error ''policy''), h2)" by blast
  from Insert_aborts_before_network[of exExternals exOwner "[]" "[]" "[]" "[]" "[]" ?bad
      "Error ''policy''" h2 "[exRecord]"] R
  show "\<exists>h2. Insert exExternals exOwner ([] @ ?bad # [exRecord]) []
            = (Inl (Error ''policy''), h2) \<and> filter isRPC h2 = []" by simp
next
  from ex_Insert obtain h' where I: "Insert exExternals exOwner [exRecord] [] = (Inr (), h')"
    and n: "filter isRPC (drop (length ([]::history)) h') \<noteq> []" by auto
  from Insert_aborts_before_network[of exExternals exOwner "[]" "[]" "[]" "[]" "[]" exRecord
      "Error []" "[]" "[]" "[exRecord]" "Inr ()" h'] I n
  show "\<exists>docs tkns h3. Insert exExternals exOwner [exRecord] []
            = (Inr (), h3 @ [EvInsert \<lparr>InsertQuery.Docs = docs, InsertQuery.Tkns = tkns\<rparr>])
          \<and> length docs = 1 \<and> length tkns = 128 \<and> filter isRPC h3 = []" by auto
qed

section \<open>One access structure for each document\<close>

lemma Insert_loop_prefix:
  "Insert_loop X owner recs docs tkns h = (Inr (docs', tkns'), h') \<Longrightarrow> \<exists>new. docs' = docs @ new"
proof (induction recs arbitrary: docs tkns h)
  case Nil
  then show ?case by simp
next
  case (Cons rec recs)
  from Cons.prems obtain partTkns doc h1 where
    L: "Insert_loop X owner recs (docs @ [doc]) (tkns @ partTkns) h1 = (Inr (docs', tkns'), h')"
    by (auto split: prod.splits sum.splits)
  from Cons.IH[OF L] show ?case by auto
qed

lemma Insert_loop_docs:
  "Insert_loop X owner recs docs tkns h = (Inr (docs', tkns'), h') \<Longrightarrow> i < length recs \<Longrightarrow>
     \<exists>hi hi' pt. Insert_rec X owner (recs ! i) hi = (Inr (pt, docs' ! (length docs + i)), hi')"
proof (induction recs arbitrary: docs tkns h i)
  case Nil
  then show ?case by simp
next
  case (Cons rec recs)
  from Cons.prems(1) obtain partTkns doc h1 where
    R: "Insert_rec X owner rec h = (Inr (partTkns, doc), h1)"
    and L: "Insert_loop X owner recs (docs @ [doc]) (tkns @ partTkns) h1 = (Inr (docs', tkns'), h')"
    by (auto split: prod.splits sum.splits)
  show ?case
  proof (cases i)
    case 0
    from Insert_loop_prefix[OF L] have "docs' ! length docs = doc" by (auto simp: nth_append)
    with R 0 show ?thesis by auto
  next
    case (Suc j)
    with Cons.prems(2) have "j < length recs" by simp
    from Cons.IH[OF L this] Suc show ?thesis by simp
  qed
qed

lemma Insert_rec_encrypts:
  assumes "Insert_rec X owner rec h = (Inr (partTkns, doc), h')"
  shows "\<exists>msp. BooleanToMSP X (Record.Set rec) False = Inr msp
           \<and> filter isEncrypt (drop (length h) h') = encryptEvents X rec msp"
proof -
  from Insert_rec_Inr[OF assms] obtain msp h1 where
    T: "retriveTkns X owner (NewObjectID X h) rec (h @ [EvNewObjectID]) = (Inr partTkns, h1)"
    and M: "BooleanToMSP X (Record.Set rec) False = Inr msp"
    and h': "h' = h1 @ encryptEvents X rec msp"
    unfolding encryptEvents_def by blast
  from retriveTkns_Inr_length[OF T]
  have "h1 = h @ EvNewObjectID # tagEvents X (NewObjectID X h) rec (retriveTkns_kws X rec)" by simp
  with h' have "filter isEncrypt (drop (length h) h') = encryptEvents X rec msp"
    by (simp add: filter_tagEvents encryptEvents_def)
  with M show ?thesis by blast
qed

lemma Insert_loop_encrypts:
  "Insert_loop X owner recs docs tkns h = (Inr (docs', tkns'), h') \<Longrightarrow>
     \<exists>msps. length msps = length recs
       \<and> (\<forall>i<length recs. BooleanToMSP X (Record.Set (recs ! i)) False = Inr (msps ! i))
       \<and> filter isEncrypt (drop (length h) h')
           = concat (map (\<lambda>(rec, msp). encryptEvents X rec msp) (zip recs msps))"
proof (induction recs arbitrary: docs tkns h)
  case Nil
  then show ?case by simp
next
  case (Cons rec recs)
  from Cons.prems obtain partTkns doc h1 where
    R: "Insert_rec X owner rec h = (Inr (partTkns, doc), h1)"
    and L: "Insert_loop X owner recs (docs @ [doc]) (tkns @ partTkns) h1 = (Inr (docs', tkns'), h')"
    by (auto split: prod.splits sum.splits)
  from Insert_rec_encrypts[OF R] obtain msp where
    M: "BooleanToMSP X (Record.Set rec) False = Inr msp"
    and E: "filter isEncrypt (drop (length h) h1) = encryptEvents X rec msp" by blast
  from Cons.IH[OF L] obtain msps where
    len: "length msps = length recs"
    and Ms: "\<forall>i<length recs. BooleanToMSP X (Record.Set (recs ! i)) False = Inr (msps ! i)"
    and Es: "filter isEncrypt (drop (length h1) h')
           = concat (map (\<lambda>(rec, msp). encryptEvents X rec msp) (zip recs msps))" by blast
  from Insert_rec_history[OF R] obtain es1 where es1: "h1 = h @ es1" by blast
  from Insert_loop_history[OF L] obtain es2 where es2: "h' = h1 @ es2" by blast
  have "filter isEncrypt (drop (length h) h')
      = filter isEncrypt (drop (length h) h1) @ filter isEncrypt (drop (length h1) h')"
    using es1 es2 by simp
  then have "filter isEncrypt (drop (length h) h')
      = concat (map (\<lambda>(rec, msp). encryptEvents X rec msp) (zip (rec # recs) (msp # msps)))"
    using E Es by simp
  moreover have "\<forall>i<length (rec # recs).
      BooleanToMSP X (Record.Set ((rec # recs) ! i)) False = Inr ((msp # msps) ! i)"
    using M Ms by (auto simp: nth_Cons split: nat.splits)
  moreover have "length (msp # msps) = length (rec # recs)" using len by simp
  ultimately show ?case by blast
qed


text \<open>
  Claim C7. When \<open>Insert\<close> has sent a query to the store, the query carries one document
  for each record, and for each record there is one access structure, the one compiled from
  the record's \<open>Set\<close>, such that the document is the marshalled map of the identifier and
  of the four marshalled ciphertexts of \<open>UserId\<close>, \<open>Location\<close>, \<open>Time\<close> and
  \<open>Set\<close>, each encrypted under that access structure; and the encryption calls of the
  whole batch are exactly these four calls for each record, in order.
\<close>

theorem Insert_one_policy_per_document:
  assumes "Insert X owner recs h = (r, h')" and "EvInsert q \<in> set (drop (length h) h')"
  shows "length (InsertQuery.Docs q) = length recs
     \<and> (\<exists>msps. length msps = length recs
          \<and> filter isEncrypt (drop (length h) h')
              = concat (map (\<lambda>(rec, msp). encryptEvents X rec msp) (zip recs msps))
          \<and> (\<forall>i<length recs.
                BooleanToMSP X (Record.Set (recs ! i)) False = Inr (msps ! i)
              \<and> (\<exists>objId hU hL hT hS cU cL cT cS bU bL bT bS.
                    Encrypt (aBE owner) hU (Record.UserId (recs ! i)) (msps ! i)
                      (ownerKeys.ABEPK (keys owner)) = Inr cU
                  \<and> jsonMarshalCipher X cU = Inr bU
                  \<and> Encrypt (aBE owner) hL (Location (recs ! i)) (msps ! i)
                      (ownerKeys.ABEPK (keys owner)) = Inr cL
                  \<and> jsonMarshalCipher X cL = Inr bL
                  \<and> Encrypt (aBE owner) hT (FormatRFC1123 X (Time (recs ! i))) (msps ! i)
                      (ownerKeys.ABEPK (keys owner)) = Inr cT
                  \<and> jsonMarshalCipher X cT = Inr bT
                  \<and> Encrypt (aBE owner) hS (Record.Set (recs ! i)) (msps ! i)
                      (ownerKeys.ABEPK (keys owner)) = Inr cS
                  \<and> jsonMarshalCipher X cS = Inr bS
                  \<and> bsonMarshal X
                       [''_id'' \<mapsto> ObjectIDValue objId, ''UserId'' \<mapsto> bsonval.Binary bU,
                        ''Location'' \<mapsto> bsonval.Binary bL, ''Time'' \<mapsto> bsonval.Binary bT,
                        ''Set'' \<mapsto> bsonval.Binary bS]
                      = Inr (Document.Binary (InsertQuery.Docs q ! i)))))"
proof -
  from assms(2) have "filter isRPC (drop (length h) h') \<noteq> []"
    by (auto simp: filter_empty_conv intro!: bexI[of _ "EvInsert q"])
  from Insert_reaches_store[OF assms(1) this] obtain docs tkns h3 where
    L: "Insert_loop X owner recs [] [] h = (Inr (docs, tkns), h3)"
    and h': "h' = h3 @ [EvInsert \<lparr>InsertQuery.Docs = docs, InsertQuery.Tkns = tkns\<rparr>]"
    and n: "filter isRPC (drop (length h) h3) = []" by blast
  from Insert_loop_history[OF L] obtain es where es: "h3 = h @ es" by blast
  from n es have "EvInsert q \<notin> set es" by (auto simp: filter_empty_conv)
  with assms(2) h' es have q: "InsertQuery.Docs q = docs" by auto
  from Insert_loop_lengths[OF L] have len: "length docs = length recs" by simp
  from Insert_loop_encrypts[OF L] obtain msps where
    lm: "length msps = length recs"
    and Ms: "\<forall>i<length recs. BooleanToMSP X (Record.Set (recs ! i)) False = Inr (msps ! i)"
    and Es: "filter isEncrypt (drop (length h) h3)
           = concat (map (\<lambda>(rec, msp). encryptEvents X rec msp) (zip recs msps))" by blast
  from Es h' es have Es': "filter isEncrypt (drop (length h) h')
           = concat (map (\<lambda>(rec, msp). encryptEvents X rec msp) (zip recs msps))" by simp
  have doc: "\<exists>objId hU hL hT hS cU cL cT cS bU bL bT bS.
                    Encrypt (aBE owner) hU (Record.UserId (recs ! i)) (msps ! i)
                      (ownerKeys.ABEPK (keys owner)) = Inr cU
                  \<and> jsonMarshalCipher X cU = Inr bU
                  \<and> Encrypt (aBE owner) hL (Location (recs ! i)) (msps ! i)
                      (ownerKeys.ABEPK (keys owner)) = Inr cL
                  \<and> jsonMarshalCipher X cL = Inr bL
                  \<and> Encrypt (aBE owner) hT (FormatRFC1123 X (Time (recs ! i))) (msps ! i)
                      (ownerKeys.ABEPK (keys owner)) = Inr cT
                  \<and> jsonMarshalCipher X cT = Inr bT
                  \<and> Encrypt (aBE owner) hS (Record.Set (recs ! i)) (msps ! i)
                      (ownerKeys.ABEPK (keys owner)) = Inr cS
                  \<and> jsonMarshalCipher X cS = Inr bS
                  \<and> bsonMarshal X
                       [''_id'' \<mapsto> ObjectIDValue objId, ''UserId'' \<mapsto> bsonval.Binary bU,
                        ''Location'' \<mapsto> bsonval.Binary bL, ''Time'' \<mapsto> bsonval.Binary bT,
                        ''Set'' \<mapsto> bsonval.Binary bS]
                      = Inr (Document.Binary (InsertQuery.Docs q ! i))" if i: "i < length recs" for i
  proof -
    from Insert_loop_docs[OF L i] obtain hi hi' pt where
      R: "Insert_rec X owner (recs ! i) hi = (Inr (pt, docs ! i), hi')" by auto
    from Insert_rec_Inr[OF R] obtain msp h1 cU cL cT cS bU bL bT bS where
      F: "BooleanToMSP X (Record.Set (recs ! i)) False = Inr msp"
      "Encrypt (aBE owner) h1 (Record.UserId (recs ! i)) msp (ownerKeys.ABEPK (keys owner)) = Inr cU"
      "jsonMarshalCipher X cU = Inr bU"
      "Encrypt (aBE owner) (h1 @ [EvEncrypt (Record.UserId (recs ! i)) msp]) (Location (recs ! i)) msp
         (ownerKeys.ABEPK (keys owner)) = Inr cL"
      "jsonMarshalCipher X cL = Inr bL"
      "Encrypt (aBE owner) (h1 @ [EvEncrypt (Record.UserId (recs ! i)) msp,
                                 EvEncrypt (Location (recs ! i)) msp])
         (FormatRFC1123 X (Time (recs ! i))) msp (ownerKeys.ABEPK (keys owner)) = Inr cT"
      "jsonMarshalCipher X cT = Inr bT"
      "Encrypt (aBE owner) (h1 @ [EvEncrypt (Record.UserId (recs ! i)) msp,
                                 EvEncrypt (Location (recs ! i)) msp,
                                 EvEncrypt (FormatRFC1123 X (Time (recs ! i))) msp])
         (Record.Set (recs ! i)) msp (ownerKeys.ABEPK (keys owner)) = Inr cS"
      "jsonMarshalCipher X cS = Inr bS"
      "bsonMarshal X
         [''_id'' \<mapsto> ObjectIDValue (NewObjectID X hi), ''UserId'' \<mapsto> bsonval.Binary bU,
          ''Location'' \<mapsto> bsonval.Binary bL, ''Time'' \<mapsto> bsonval.Binary bT,
          ''Set'' \<mapsto> bsonval.Binary bS] = Inr (Document.Binary (docs ! i))"
      by blast
    from F(1) Ms i have m: "msp = msps ! i" by simp
    show ?thesis unfolding q
      by (intro exI conjI) (rule F(2-)[unfolded m])+
  qed
  show ?thesis
  proof (intro conjI)
    show "length (InsertQuery.Docs q) = length recs" using q len by simp
    show "\<exists>msps. length msps = length recs
          \<and> filter isEncrypt (drop (length h) h')
              = concat (map (\<lambda>(rec, msp). encryptEvents X rec msp) (zip recs msps))
          \<and> (\<forall>i<length recs.
                BooleanToMSP X (Record.Set (recs ! i)) False = Inr (msps ! i)
              \<and> (\<exists>objId hU hL hT hS cU cL cT cS bU bL bT bS.
                    Encrypt (aBE owner) hU (Record.UserId (recs ! i)) (msps ! i)
                      (ownerKeys.ABEPK (keys owner)) = Inr cU
                  \<and> jsonMarshalCipher X cU = Inr bU
                  \<and> Encrypt (aBE owner) hL (Location (recs ! i)) (msps ! i)
                      (ownerKeys.ABEPK (keys owner)) = Inr cL
                  \<and> jsonMarshalCipher X cL = Inr bL
                  \<and> Encrypt (aBE owner) hT (FormatRFC1123 X (Time (recs ! i))) (msps ! i)
                      (ownerKeys.ABEPK (keys owner)) = Inr cT
                  \<and> jsonMarshalCipher X cT = Inr bT
                  \<and> Encrypt (aBE owner) hS (Record.Set (recs ! i)) (msps ! i)
                      (ownerKeys.ABEPK (keys owner)) = Inr cS
                  \<and> jsonMarshalCipher X cS = Inr bS
                  \<and> bsonMarshal X
                       [''_id'' \<mapsto> ObjectIDValue objId, ''UserId'' \<mapsto> bsonval.Binary bU,
                        ''Location'' \<mapsto> bsonval.Binary bL, ''Time'' \<mapsto> bsonval.Binary bT,
                        ''Set'' \<mapsto> bsonval.Binary bS]
                      = Inr (Document.Binary (InsertQuery.Docs q ! i))))"
      using lm Es' Ms doc by (intro exI[of _ msps]) simp
  qed
qed

theorem Insert_one_policy_per_document_witness:
  "\<exists>q h'. Insert exExternals exOwner [exRecord] [] = (Inr (), h')
     \<and> EvInsert q \<in> set h' \<and> length (InsertQuery.Docs q) = 1
     \<and> filter isEncrypt h' = encryptEvents exExternals exRecord (MSP 4)"
proof -
  from ex_Insert obtain h' where I: "Insert exExternals exOwner [exRecord] [] = (Inr (), h')"
    and n: "filter isRPC (drop (length ([]::history)) h') \<noteq> []" by auto
  from Insert_reaches_store[OF I n] obtain docs tkns h3 where
    "h' = h3 @ [EvInsert \<lparr>InsertQuery.Docs = docs, InsertQuery.Tkns = tkns\<rparr>]" by blast
  then have q0: "EvInsert \<lparr>InsertQuery.Docs = docs, InsertQuery.Tkns = tkns\<rparr>
      \<in> set (drop (length ([]::history)) h')" by simp
  define q where "q = \<lparr>InsertQuery.Docs = docs, InsertQuery.Tkns = tkns\<rparr>"
  from q0 have q: "EvInsert q \<in> set (drop (length ([]::history)) h')" by (simp add: q_def)
  from Insert_one_policy_per_document[OF I q] obtain msps where
    l: "length (InsertQuery.Docs q) = 1" and lm: "length msps = 1"
    and E: "filter isEncrypt h' = concat (map (\<lambda>(rec, msp). encryptEvents exExternals rec msp)
              (zip [exRecord] msps))"
    and M: "BooleanToMSP exExternals (Record.Set exRecord) False = Inr (msps ! 0)"
    by auto
  have "BooleanToMSP exExternals (Record.Set exRecord) False = Inr (MSP 4)" by code_simp
  with M have "msps ! 0 = MSP 4" by simp
  with lm have "msps = [MSP 4]" by (cases msps) auto
  with E I q l show ?thesis by auto
qed

section \<open>The status of the store\<close>

text \<open>
  Claim C8. In \<open>Insert\<close>, \<open>FindB\<close> and \<open>FindB2\<close>: when the local work before the round
  trip has succeeded and the store answers with a status other than \<open>"Ok"\<close>, the method
  returns the error whose message is that status; when \<open>Insert\<close> gets the status
  \<open>"Ok"\<close> it returns success; and a method returns success only if the store answered its
  query with the status \<open>"Ok"\<close>.
\<close>

theorem store_status_surfaces:
  "(Insert_loop X owner recs [] [] h = (Inr (docs, tkns), h1)
      \<and> clientInsert (client owner) h1 \<lparr>InsertQuery.Docs = docs, InsertQuery.Tkns = tkns\<rparr> = Inr res
    \<longrightarrow> (InsertResponse.Msg res \<noteq> ''Ok''
           \<longrightarrow> fst (Insert X owner recs h) = Inl (Error (InsertResponse.Msg res)))
        \<and> (InsertResponse.Msg res = ''Ok'' \<longrightarrow> fst (Insert X owner recs h) = Inr ()))
   \<and> (fst (Insert X owner recs h) = Inr ()
    \<longrightarrow> (\<exists>docs tkns h1 res.
           Insert_loop X owner recs [] [] h = (Inr (docs, tkns), h1)
         \<and> clientInsert (client owner) h1 \<lparr>InsertQuery.Docs = docs, InsertQuery.Tkns = tkns\<rparr>
             = Inr res
         \<and> InsertResponse.Msg res = ''Ok''))
   \<and> (FindB_tkns X owner set0
          (map (\<lambda>tKW. ''B:'' @ loc @ '':'' @ tKW)
             (getBRCKWs X (uint64 (Unix timeA)) (uint64 (Unix timeB)))) [] h = (Inr findTkns, h2)
      \<and> clientFind (client owner) h2 \<lparr>Fields = [''UserId''], FindQuery.Tkns = findTkns\<rparr>
          = Inr findRes
      \<and> FindResponse.Msg findRes \<noteq> ''Ok''
    \<longrightarrow> fst (FindB X owner set0 loc timeA timeB h) = Inl (Error (FindResponse.Msg findRes)))
   \<and> (fst (FindB X owner set0 loc timeA timeB h) = Inr results
    \<longrightarrow> (\<exists>findTkns h2 findRes.
           FindB_tkns X owner set0
             (map (\<lambda>tKW. ''B:'' @ loc @ '':'' @ tKW)
                (getBRCKWs X (uint64 (Unix timeA)) (uint64 (Unix timeB)))) [] h = (Inr findTkns, h2)
         \<and> clientFind (client owner) h2 \<lparr>Fields = [''UserId''], FindQuery.Tkns = findTkns\<rparr>
             = Inr findRes
         \<and> FindResponse.Msg findRes = ''Ok''))
   \<and> (FindB2_tkns X owner set0
          (map (\<lambda>tKW. ''B:'' @ loc @ '':'' @ tKW)
             (getBRCKWs X (uint64 (Unix timeA)) (uint64 (Unix timeB)))) [] h = (Inr findTkns2, h3)
      \<and> clientFind (client owner) h3 \<lparr>Fields = [''UserId'', ''Set''], FindQuery.Tkns = findTkns2\<rparr>
          = Inr findRes2
      \<and> FindResponse.Msg findRes2 \<noteq> ''Ok''
    \<longrightarrow> fst (FindB2 X owner set0 loc timeA timeB h) = Inl (Error (FindResponse.Msg findRes2)))
   \<and> (fst (FindB2 X owner set0 loc timeA timeB h) = Inr results2
    \<longrightarrow> (\<exists>findTkns h2 findRes.
           FindB2_tkns X owner set0
             (map (\<lambda>tKW. ''B:'' @ loc @ '':'' @ tKW)
                (getBRCKWs X (uint64 (Unix timeA)) (uint64 (Unix timeB)))) [] h = (Inr findTkns, h2)
         \<and> clientFind (client owner) h2
              \<lparr>Fields = [''UserId'', ''Set''], FindQuery.Tkns = findTkns\<rparr> = Inr findRes
         \<and> FindResponse.Msg findRes = ''Ok''))"
proof (intro conjI impI)
  assume "Insert_loop X owner recs [] [] h = (Inr (docs, tkns), h1)
      \<and> clientInsert (client owner) h1 \<lparr>InsertQuery.Docs = docs, InsertQuery.Tkns = tkns\<rparr> = Inr res"
  then show "InsertResponse.Msg res \<noteq> ''Ok''
      \<Longrightarrow> fst (Insert X owner recs h) = Inl (Error (InsertResponse.Msg res))"
    and "InsertResponse.Msg res = ''Ok'' \<Longrightarrow> fst (Insert X owner recs h) = Inr ()"
    by (simp_all add: Insert_def Let_def)
next
  assume "fst (Insert X owner recs h) = Inr ()"
  then show "\<exists>docs tkns h1 res.
           Insert_loop X owner recs [] [] h = (Inr (docs, tkns), h1)
         \<and> clientInsert (client owner) h1 \<lparr>InsertQuery.Docs = docs, InsertQuery.Tkns = tkns\<rparr>
             = Inr res
         \<and> InsertResponse.Msg res = ''Ok''"
    by (auto simp: Insert_def Let_def split: prod.splits sum.splits if_splits)
next
  assume "FindB_tkns X owner set0
          (map (\<lambda>tKW. ''B:'' @ loc @ '':'' @ tKW)
             (getBRCKWs X (uint64 (Unix timeA)) (uint64 (Unix timeB)))) [] h = (Inr findTkns, h2)
      \<and> clientFind (client owner) h2 \<lparr>Fields = [''UserId''], FindQuery.Tkns = findTkns\<rparr>
          = Inr findRes
      \<and> FindResponse.Msg findRes \<noteq> ''Ok''"
  then show "fst (FindB X owner set0 loc timeA timeB h) = Inl (Error (FindResponse.Msg findRes))"
    by (simp add: FindB_def Let_def)
next
  assume "fst (FindB X owner set0 loc timeA timeB h) = Inr results"
  then show "\<exists>findTkns h2 findRes.
           FindB_tkns X owner set0
             (map (\<lambda>tKW. ''B:'' @ loc @ '':'' @ tKW)
                (getBRCKWs X (uint64 (Unix timeA)) (uint64 (Unix timeB)))) [] h = (Inr findTkns, h2)
         \<and> clientFind (client owner) h2 \<lparr>Fields = [''UserId''], FindQuery.Tkns = findTkns\<rparr>
             = Inr findRes
         \<and> FindResponse.Msg findRes = ''Ok''"
    by (auto simp: FindB_def Let_def split: prod.splits sum.splits if_splits)
next
  assume "FindB2_tkns X owner set0
          (map (\<lambda>tKW. ''B:'' @ loc @ '':'' @ tKW)
             (getBRCKWs X (uint64 (Unix timeA)) (uint64 (Unix timeB)))) [] h = (Inr findTkns2, h3)
      \<and> clientFind (client owner) h3 \<lparr>Fields = [''UserId'', ''Set''], FindQuery.Tkns = findTkns2\<rparr>
          = Inr findRes2
      \<and> FindResponse.Msg findRes2 \<noteq> ''Ok''"
  then show "fst (FindB2 X owner set0 loc timeA timeB h) = Inl (Error (FindResponse.Msg findRes2))"
    by (simp add: FindB2_def Let_def)
next
  assume "fst (FindB2 X owner set0 loc timeA timeB h) = Inr results2"
  then show "\<exists>findTkns h2 findRes.
           FindB2_tkns X owner set0
             (map (\<lambda>tKW. ''B:'' @ loc @ '':'' @ tKW)
                (getBRCKWs X (uint64 (Unix timeA)) (uint64 (Unix timeB)))) [] h = (Inr findTkns, h2)
         \<and> clientFind (client owner) h2
              \<lparr>Fields = [''UserId'', ''Set''], FindQuery.Tkns = findTkns\<rparr> = Inr findRes
         \<and> FindResponse.Msg findRes = ''Ok''"
    by (auto simp: FindB2_def Let_def split: prod.splits sum.splits if_splits)
qed


lemma not_isl_fstD: "\<not> isl (fst p) \<Longrightarrow> \<exists>a b. p = (Inr a, b)"
  by (cases p, cases "fst p") auto

lemma ex_down_Insert_loop:
  "\<exists>dt h1. Insert_loop exExternals exDownOwner [exRecord] [] [] [] = (Inr dt, h1)"
proof -
  have "\<not> isl (fst (Insert_loop exExternals exDownOwner [exRecord] [] [] []))" by code_simp
  then show ?thesis by (rule not_isl_fstD)
qed

lemma ex_down_tkns:
  "\<exists>findTkns h2. FindB_tkns exExternals exDownOwner ''grpA''
      (map (\<lambda>tKW. ''B:'' @ ''home'' @ '':'' @ tKW)
         (getBRCKWs exExternals (uint64 (Unix (time.Time 5))) (uint64 (Unix (time.Time 9))))) [] []
     = (Inr findTkns, h2)"
proof -
  have "\<not> isl (fst (FindB_tkns exExternals exDownOwner ''grpA''
      (map (\<lambda>tKW. ''B:'' @ ''home'' @ '':'' @ tKW)
         (getBRCKWs exExternals (uint64 (Unix (time.Time 5))) (uint64 (Unix (time.Time 9))))) [] []))"
    by code_simp
  then show ?thesis by (rule not_isl_fstD)
qed

lemma ex_down_tkns2:
  "\<exists>findTkns h2. FindB2_tkns exExternals exDownOwner ''grpA''
      (map (\<lambda>tKW. ''B:'' @ ''home'' @ '':'' @ tKW)
         (getBRCKWs exExternals (uint64 (Unix (time.Time 5))) (uint64 (Unix (time.Time 9))))) [] []
     = (Inr findTkns, h2)"
proof -
  have "\<not> isl (fst (FindB2_tkns exExternals exDownOwner ''grpA''
      (map (\<lambda>tKW. ''B:'' @ ''home'' @ '':'' @ tKW)
         (getBRCKWs exExternals (uint64 (Unix (time.Time 5))) (uint64 (Unix (time.Time 9))))) [] []))"
    by code_simp
  then show ?thesis by (rule not_isl_fstD)
qed

lemma ex_FindB:
  "fst (FindB exExternals exOwner ''grpA'' ''home'' (time.Time 5) (time.Time 9) [])
     = Inr [\<lparr>FindBResult.UserId = ''alice''\<rparr>]"
  by code_simp

lemma ex_FindB2:
  "fst (FindB2 exExternals exOwner ''grpA'' ''home'' (time.Time 5) (time.Time 9) [])
     = Inr [\<lparr>FindB2Result.UserId = ''alice'', FindB2Result.Set = ''grpA''\<rparr>]"
  by code_simp


lemma ex_down_client:
  "clientInsert (client exDownOwner) h q = Inr \<lparr>InsertResponse.Msg = ''disk full''\<rparr>"
  "clientFind (client exDownOwner) h q' = Inr \<lparr>FindResponse.Msg = ''index down'', FindResponse.Docs = []\<rparr>"
  by (simp_all add: exDownOwner_def)

theorem store_status_surfaces_witness:
  "fst (Insert exExternals exDownOwner [exRecord] []) = Inl (Error ''disk full'')
   \<and> (\<exists>docs tkns h1 res.
         Insert_loop exExternals exOwner [exRecord] [] [] [] = (Inr (docs, tkns), h1)
       \<and> clientInsert (client exOwner) h1 \<lparr>InsertQuery.Docs = docs, InsertQuery.Tkns = tkns\<rparr> = Inr res
       \<and> InsertResponse.Msg res = ''Ok'')
   \<and> fst (FindB exExternals exDownOwner ''grpA'' ''home'' (time.Time 5) (time.Time 9) [])
       = Inl (Error ''index down'')
   \<and> fst (FindB2 exExternals exDownOwner ''grpA'' ''home'' (time.Time 5) (time.Time 9) [])
       = Inl (Error ''index down'')
   \<and> (\<exists>findTkns h2 findRes.
         clientFind (client exOwner) h2 \<lparr>Fields = [''UserId''], FindQuery.Tkns = findTkns\<rparr>
           = Inr findRes \<and> FindResponse.Msg findRes = ''Ok'')
   \<and> (\<exists>findTkns h2 findRes.
         clientFind (client exOwner) h2 \<lparr>Fields = [''UserId'', ''Set''], FindQuery.Tkns = findTkns\<rparr>
           = Inr findRes \<and> FindResponse.Msg findRes = ''Ok'')"
proof (intro conjI)
  from ex_down_Insert_loop obtain docs tkns h1 where
    L: "Insert_loop exExternals exDownOwner [exRecord] [] [] [] = (Inr (docs, tkns), h1)" by auto
  from store_status_surfaces[where X = exExternals and owner = exDownOwner and recs = "[exRecord]"
      and h = "[]" and docs = docs and tkns = tkns and ?h1.0 = h1
      and res = "\<lparr>InsertResponse.Msg = ''disk full''\<rparr>"] L
  show "fst (Insert exExternals exDownOwner [exRecord] []) = Inl (Error ''disk full'')"
    by (simp add: ex_down_client)
next
  from ex_Insert have "fst (Insert exExternals exOwner [exRecord] []) = Inr ()" by auto
  with store_status_surfaces[where X = exExternals and owner = exOwner and recs = "[exRecord]"
      and h = "[]"]
  show "\<exists>docs tkns h1 res.
         Insert_loop exExternals exOwner [exRecord] [] [] [] = (Inr (docs, tkns), h1)
       \<and> clientInsert (client exOwner) h1 \<lparr>InsertQuery.Docs = docs, InsertQuery.Tkns = tkns\<rparr> = Inr res
       \<and> InsertResponse.Msg res = ''Ok''" by blast
next
  from ex_down_tkns obtain findTkns h2 where
    T: "FindB_tkns exExternals exDownOwner ''grpA''
      (map (\<lambda>tKW. ''B:'' @ ''home'' @ '':'' @ tKW)
         (getBRCKWs exExternals (uint64 (Unix (time.Time 5))) (uint64 (Unix (time.Time 9))))) [] []
     = (Inr findTkns, h2)" by blast
  from store_status_surfaces[where X = exExternals and owner = exDownOwner and ?set0.0 = "''grpA''"
      and loc = "''home''" and timeA = "time.Time 5" and timeB = "time.Time 9" and h = "[]"
      and findTkns = findTkns and ?h2.0 = h2
      and findRes = "\<lparr>FindResponse.Msg = ''index down'', FindResponse.Docs = []\<rparr>"] T
  show "fst (FindB exExternals exDownOwner ''grpA'' ''home'' (time.Time 5) (time.Time 9) [])
       = Inl (Error ''index down'')"
    by (simp add: ex_down_client)
next
  from ex_down_tkns2 obtain findTkns h2 where
    T: "FindB2_tkns exExternals exDownOwner ''grpA''
      (map (\<lambda>tKW. ''B:'' @ ''home'' @ '':'' @ tKW)
         (getBRCKWs exExternals (uint64 (Unix (time.Time 5))) (uint64 (Unix (time.Time 9))))) [] []
     = (Inr findTkns, h2)" by blast
  from store_status_surfaces[where X = exExternals and owner = exDownOwner and ?set0.0 = "''grpA''"
      and loc = "''home''" and timeA = "time.Time 5" and timeB = "time.Time 9" and h = "[]"
      and ?findTkns2.0 = findTkns and ?h3.0 = h2
      and ?findRes2.0 = "\<lparr>FindResponse.Msg = ''index down'', FindResponse.Docs = []\<rparr>"] T
  show "fst (FindB2 exExternals exDownOwner ''grpA'' ''home'' (time.Time 5) (time.Time 9) [])
       = Inl (Error ''index down'')"
    by (simp add: ex_down_client)
next
  from store_status_surfaces[where X = exExternals and owner = exOwner and ?set0.0 = "''grpA''"
      and loc = "''home''" and timeA = "time.Time 5" and timeB = "time.Time 9" and h = "[]"
      and results = "[\<lparr>FindBResult.UserId = ''alice''\<rparr>]"] ex_FindB
  show "\<exists>findTkns h2 findRes.
         clientFind (client exOwner) h2 \<lparr>Fields = [''UserId''], FindQuery.Tkns = findTkns\<rparr>
           = Inr findRes \<and> FindResponse.Msg findRes = ''Ok''" by blast
next
  from store_status_surfaces[where X = exExternals and owner = exOwner and ?set0.0 = "''grpA''"
      and loc = "''home''" and timeA = "time.Time 5" and timeB = "time.Time 9" and h = "[]"
      and ?results2.0 = "[\<lparr>FindB2Result.UserId = ''alice'', FindB2Result.Set = ''grpA''\<rparr>]"]
    ex_FindB2
  show "\<exists>findTkns h2 findRes.
         clientFind (client exOwner) h2 \<lparr>Fields = [''UserId'', ''Set''], FindQuery.Tkns = findTkns\<rparr>
           = Inr findRes \<and> FindResponse.Msg findRes = ''Ok''" by blast
qed

section \<open>Absent trapdoors and empty answers\<close>

lemma FindB_tkns_append:
  "FindB_tkns X owner set0 kws1 acc h = (Inr acc1, h1) \<Longrightarrow>
     FindB_tkns X owner set0 (kws1 @ kws2) acc h = FindB_tkns X owner set0 kws2 acc1 h1"
  by (induction kws1 arbitrary: acc h) (auto simp: Let_def split: sum.splits option.splits)

lemma FindB2_tkns_append:
  "FindB2_tkns X owner set0 kws1 acc h = (Inr acc1, h1) \<Longrightarrow>
     FindB2_tkns X owner set0 (kws1 @ kws2) acc h = FindB2_tkns X owner set0 kws2 acc1 h1"
  by (induction kws1 arbitrary: acc h) (auto simp: Let_def split: sum.splits option.splits)

text \<open>
  Claim C9. In the trapdoor loops of \<open>FindB\<close> and \<open>FindB2\<close>: when the keywords before a
  keyword have been handled and the index answers that keyword with a nil token, the loop
  goes on with the remaining keywords, with the tokens collected so far unchanged and
  without failing. And when the trapdoors have been generated and the store answers
  \<open>"Ok"\<close> with no document, both methods return the empty result list and no error.
\<close>

theorem absent_trapdoor_skipped_empty_ok:
  "(FindB_tkns X owner set0 kws1 acc h = (Inr acc1, h1)
      \<and> GenSearchTkn (mfastOwner owner) h1 set0 kw = Inr None
    \<longrightarrow> FindB_tkns X owner set0 (kws1 @ kw # kws2) acc h
          = FindB_tkns X owner set0 kws2 acc1 (h1 @ [EvGenSearchTkn set0 kw]))
   \<and> (FindB2_tkns X owner set0 kws1 acc h = (Inr acc1, h1)
      \<and> GenSearchTkn (mfastOwner owner) h1 set0 kw = Inr None
    \<longrightarrow> FindB2_tkns X owner set0 (kws1 @ kw # kws2) acc h
          = FindB2_tkns X owner set0 kws2 acc1 (h1 @ [EvGenSearchTkn set0 kw]))
   \<and> (FindB_tkns X owner set0
          (map (\<lambda>tKW. ''B:'' @ loc @ '':'' @ tKW)
             (getBRCKWs X (uint64 (Unix timeA)) (uint64 (Unix timeB)))) [] h = (Inr findTkns, h2)
      \<and> clientFind (client owner) h2 \<lparr>Fields = [''UserId''], FindQuery.Tkns = findTkns\<rparr>
          = Inr \<lparr>FindResponse.Msg = ''Ok'', FindResponse.Docs = []\<rparr>
    \<longrightarrow> FindB X owner set0 loc timeA timeB h
          = (Inr [], h2 @ [EvFind \<lparr>Fields = [''UserId''], FindQuery.Tkns = findTkns\<rparr>]))
   \<and> (FindB2_tkns X owner set0
          (map (\<lambda>tKW. ''B:'' @ loc @ '':'' @ tKW)
             (getBRCKWs X (uint64 (Unix timeA)) (uint64 (Unix timeB)))) [] h = (Inr findTkns2, h3)
      \<and> clientFind (client owner) h3 \<lparr>Fields = [''UserId'', ''Set''], FindQuery.Tkns = findTkns2\<rparr>
          = Inr \<lparr>FindResponse.Msg = ''Ok'', FindResponse.Docs = []\<rparr>
    \<longrightarrow> FindB2 X owner set0 loc timeA timeB h
          = (Inr [], h3 @ [EvFind \<lparr>Fields = [''UserId'', ''Set''], FindQuery.Tkns = findTkns2\<rparr>]))"
proof (intro conjI impI)
  assume "FindB_tkns X owner set0 kws1 acc h = (Inr acc1, h1)
      \<and> GenSearchTkn (mfastOwner owner) h1 set0 kw = Inr None"
  then show "FindB_tkns X owner set0 (kws1 @ kw # kws2) acc h
          = FindB_tkns X owner set0 kws2 acc1 (h1 @ [EvGenSearchTkn set0 kw])"
    by (simp add: FindB_tkns_append)
next
  assume "FindB2_tkns X owner set0 kws1 acc h = (Inr acc1, h1)
      \<and> GenSearchTkn (mfastOwner owner) h1 set0 kw = Inr None"
  then show "FindB2_tkns X owner set0 (kws1 @ kw # kws2) acc h
          = FindB2_tkns X owner set0 kws2 acc1 (h1 @ [EvGenSearchTkn set0 kw])"
    by (simp add: FindB2_tkns_append)
next
  assume "FindB_tkns X owner set0
          (map (\<lambda>tKW. ''B:'' @ loc @ '':'' @ tKW)
             (getBRCKWs X (uint64 (Unix timeA)) (uint64 (Unix timeB)))) [] h = (Inr findTkns, h2)
      \<and> clientFind (client owner) h2 \<lparr>Fields = [''UserId''], FindQuery.Tkns = findTkns\<rparr>
          = Inr \<lparr>FindResponse.Msg = ''Ok'', FindResponse.Docs = []\<rparr>"
  then show "FindB X owner set0 loc timeA timeB h
          = (Inr [], h2 @ [EvFind \<lparr>Fields = [''UserId''], FindQuery.Tkns = findTkns\<rparr>])"
    by (simp add: FindB_def Let_def)
next
  assume "FindB2_tkns X owner set0
          (map (\<lambda>tKW. ''B:'' @ loc @ '':'' @ tKW)
             (getBRCKWs X (uint64 (Unix timeA)) (uint64 (Unix timeB)))) [] h = (Inr findTkns2, h3)
      \<and> clientFind (client owner) h3 \<lparr>Fields = [''UserId'', ''Set''], FindQuery.Tkns = findTkns2\<rparr>
          = Inr \<lparr>FindResponse.Msg = ''Ok'', FindResponse.Docs = []\<rparr>"
  then show "FindB2 X owner set0 loc timeA timeB h
          = (Inr [], h3 @ [EvFind \<lparr>Fields = [''UserId'', ''Set''], FindQuery.Tkns = findTkns2\<rparr>])"
    by (simp add: FindB2_def Let_def)
qed

lemma ex_tkns_kk:
  "FindB_tkns exExternals exOwner ''grpA'' [''B:home:kk''] [] []
     = (Inr [Token ''sssssssss''], [EvGenSearchTkn ''grpA'' ''B:home:kk''])"
  "FindB2_tkns exExternals exOwner ''grpA'' [''B:home:kk''] [] []
     = (Inr [Token ''sssssssss''], [EvGenSearchTkn ''grpA'' ''B:home:kk''])"
  by code_simp+

lemma ex_absent: "GenSearchTkn (mfastOwner exOwner) h ''grpA'' ''B:home:k'' = Inr None"
  by (simp add: exOwner_def)

lemma ex_empty_tkns:
  "FindB_tkns exExternals exEmptyOwner ''grpA''
      (map (\<lambda>tKW. ''B:'' @ ''home'' @ '':'' @ tKW)
         (getBRCKWs exExternals (uint64 (Unix (time.Time 5))) (uint64 (Unix (time.Time 9))))) [] []
     = (Inr [Token ''sssssssss''],
        [EvGenSearchTkn ''grpA'' ''B:home:k'', EvGenSearchTkn ''grpA'' ''B:home:kk''])"
  "FindB2_tkns exExternals exEmptyOwner ''grpA''
      (map (\<lambda>tKW. ''B:'' @ ''home'' @ '':'' @ tKW)
         (getBRCKWs exExternals (uint64 (Unix (time.Time 5))) (uint64 (Unix (time.Time 9))))) [] []
     = (Inr [Token ''sssssssss''],
        [EvGenSearchTkn ''grpA'' ''B:home:k'', EvGenSearchTkn ''grpA'' ''B:home:kk''])"
  by code_simp+

lemma ex_empty_client:
  "clientFind (client exEmptyOwner) h q = Inr \<lparr>FindResponse.Msg = ''Ok'', FindResponse.Docs = []\<rparr>"
  by (simp add: exEmptyOwner_def)

theorem absent_trapdoor_skipped_empty_ok_witness:
  "FindB_tkns exExternals exOwner ''grpA'' ([''B:home:kk''] @ ''B:home:k'' # [''B:home:kk'']) [] []
     = FindB_tkns exExternals exOwner ''grpA'' [''B:home:kk''] [Token ''sssssssss'']
         ([EvGenSearchTkn ''grpA'' ''B:home:kk''] @ [EvGenSearchTkn ''grpA'' ''B:home:k''])
   \<and> FindB2_tkns exExternals exOwner ''grpA'' ([''B:home:kk''] @ ''B:home:k'' # [''B:home:kk'']) [] []
     = FindB2_tkns exExternals exOwner ''grpA'' [''B:home:kk''] [Token ''sssssssss'']
         ([EvGenSearchTkn ''grpA'' ''B:home:kk''] @ [EvGenSearchTkn ''grpA'' ''B:home:k''])
   \<and> fst (FindB exExternals exEmptyOwner ''grpA'' ''home'' (time.Time 5) (time.Time 9) []) = Inr []
   \<and> fst (FindB2 exExternals exEmptyOwner ''grpA'' ''home'' (time.Time 5) (time.Time 9) []) = Inr []"
  using
    absent_trapdoor_skipped_empty_ok[where X = exExternals and owner = exOwner
      and ?set0.0 = "''grpA''" and ?kws1.0 = "[''B:home:kk'']" and acc = "[]" and h = "[]"
      and ?acc1.0 = "[Token ''sssssssss'']" and ?h1.0 = "[EvGenSearchTkn ''grpA'' ''B:home:kk'']"
      and kw = "''B:home:k''" and ?kws2.0 = "[''B:home:kk'']"]
    absent_trapdoor_skipped_empty_ok[where X = exExternals and owner = exEmptyOwner
      and ?set0.0 = "''grpA''" and loc = "''home''" and timeA = "time.Time 5"
      and timeB = "time.Time 9" and h = "[]"
      and findTkns = "[Token ''sssssssss'']" and ?findTkns2.0 = "[Token ''sssssssss'']"
      and ?h2.0 = "[EvGenSearchTkn ''grpA'' ''B:home:k'', EvGenSearchTkn ''grpA'' ''B:home:kk'']"
      and ?h3.0 = "[EvGenSearchTkn ''grpA'' ''B:home:k'', EvGenSearchTkn ''grpA'' ''B:home:kk'']"]
    ex_tkns_kk ex_absent ex_empty_tkns ex_empty_client
  by simp

section \<open>Decryption failures and delegation\<close>

text \<open>
  Claim C2. A failure of the decryption of a requested field is to be reported for its
  document. The methods do not do so: with a store that returns one document and an ABE
  scheme whose \<open>Decrypt\<close> fails on it (the empty string and the error
  \<open>AccessDenied\<close>), \<open>FindB\<close> and \<open>FindB2\<close> return success, and the result for the
  document carries the empty string in place of each field.
\<close>

theorem FindB_drops_decrypt_error:
  "Decrypt (aBE exDeniedOwner) c k pk = ([], Some (Error ''AccessDenied''))
   \<and> fst (FindB exExternals exDeniedOwner ''grpA'' ''home'' (time.Time 5) (time.Time 9) [])
       = Inr [\<lparr>FindBResult.UserId = []\<rparr>]
   \<and> fst (FindB2 exExternals exDeniedOwner ''grpA'' ''home'' (time.Time 5) (time.Time 9) [])
       = Inr [\<lparr>FindB2Result.UserId = [], FindB2Result.Set = []\<rparr>]"
proof (intro conjI)
  show "Decrypt (aBE exDeniedOwner) c k pk = ([], Some (Error ''AccessDenied''))"
    by (simp add: exDeniedOwner_def)
  show "fst (FindB exExternals exDeniedOwner ''grpA'' ''home'' (time.Time 5) (time.Time 9) [])
       = Inr [\<lparr>FindBResult.UserId = []\<rparr>]"
    by code_simp
  show "fst (FindB2 exExternals exDeniedOwner ''grpA'' ''home'' (time.Time 5) (time.Time 9) [])
       = Inr [\<lparr>FindB2Result.UserId = [], FindB2Result.Set = []\<rparr>]"
    by code_simp
qed

text \<open>
  Claim C5. When \<open>DelegateKeys\<close> returns keys, they are the partition name, the delegated
  index keys of the partition, the attribute key generated for the partition and the
  owner's public key, and nothing else; when \<open>GenSearcherConfig\<close> returns a text, it is
  the marshalled configuration made of the owner's partition list, those keys and the
  store's address. The master secret key reaches neither but through the attribute key:
  with another master secret key for which the attribute key generation answers alike, both
  methods return the same.
\<close>

theorem DelegateKeys_without_master_key:
  "(DelegateKeys X owner set0 h = (Inr dk, h')
    \<longrightarrow> (\<exists>abeAttrK mfastKeys.
           GenerateAttribKeys (aBE owner) h [set0] (ABESK (keys owner)) = Inr abeAttrK
         \<and> mfastDelegateKeys (mfastOwner owner) (h @ [EvGenerateAttribKeys [set0]]) set0
             = Inr mfastKeys
         \<and> dk = \<lparr>DelegatedKeys.Set = set0, MFastKeys = mfastKeys, ABEAttrK = abeAttrK,
                  DelegatedKeys.ABEPK = ownerKeys.ABEPK (keys owner)\<rparr>))
   \<and> (GenSearcherConfig X owner set0 h = (Inr jsonCfg, h'')
    \<longrightarrow> (\<exists>dk2. DelegateKeys X owner set0 h = (Inr dk2, h'')
         \<and> jsonMarshalIndent X
              \<lparr>SearcherConfig.SetList = OwnerConfig.SetList (config owner), Keys = dk2,
               SearcherConfig.ServerAddr = OwnerConfig.ServerAddr (config owner)\<rparr> = Inr jsonCfg))
   \<and> (GenerateAttribKeys (aBE owner) h [set0] sk
        = GenerateAttribKeys (aBE owner) h [set0] (ABESK (keys owner))
    \<longrightarrow> DelegateKeys X (owner\<lparr>keys := (keys owner)\<lparr>ABESK := sk\<rparr>\<rparr>) set0 h
          = DelegateKeys X owner set0 h
        \<and> GenSearcherConfig X (owner\<lparr>keys := (keys owner)\<lparr>ABESK := sk\<rparr>\<rparr>) set0 h
          = GenSearcherConfig X owner set0 h)"
proof (intro conjI impI)
  assume "DelegateKeys X owner set0 h = (Inr dk, h')"
  then show "\<exists>abeAttrK mfastKeys.
           GenerateAttribKeys (aBE owner) h [set0] (ABESK (keys owner)) = Inr abeAttrK
         \<and> mfastDelegateKeys (mfastOwner owner) (h @ [EvGenerateAttribKeys [set0]]) set0
             = Inr mfastKeys
         \<and> dk = \<lparr>DelegatedKeys.Set = set0, MFastKeys = mfastKeys, ABEAttrK = abeAttrK,
                  DelegatedKeys.ABEPK = ownerKeys.ABEPK (keys owner)\<rparr>"
    by (auto simp: DelegateKeys_def Let_def split: sum.splits)
next
  assume "GenSearcherConfig X owner set0 h = (Inr jsonCfg, h'')"
  then show "\<exists>dk2. DelegateKeys X owner set0 h = (Inr dk2, h'')
         \<and> jsonMarshalIndent X
              \<lparr>SearcherConfig.SetList = OwnerConfig.SetList (config owner), Keys = dk2,
               SearcherConfig.ServerAddr = OwnerConfig.ServerAddr (config owner)\<rparr> = Inr jsonCfg"
    by (auto simp: GenSearcherConfig_def Let_def split: prod.splits sum.splits)
next
  assume A: "GenerateAttribKeys (aBE owner) h [set0] sk
        = GenerateAttribKeys (aBE owner) h [set0] (ABESK (keys owner))"
  then show D: "DelegateKeys X (owner\<lparr>keys := (keys owner)\<lparr>ABESK := sk\<rparr>\<rparr>) set0 h
          = DelegateKeys X owner set0 h"
    by (simp add: DelegateKeys_def Let_def split: sum.splits)
  show "GenSearcherConfig X (owner\<lparr>keys := (keys owner)\<lparr>ABESK := sk\<rparr>\<rparr>) set0 h
          = GenSearcherConfig X owner set0 h"
    by (simp add: GenSearcherConfig_def D split: prod.splits sum.splits)
qed

lemma ex_DelegateKeys:
  "DelegateKeys exExternals exOwner ''grpA'' []
     = (Inr \<lparr>DelegatedKeys.Set = ''grpA'', MFastKeys = MFastKeys.MFastKeys 4,
             ABEAttrK = FAMEAttribKeys 1, DelegatedKeys.ABEPK = FAMEPubKey 1\<rparr>,
        [EvGenerateAttribKeys [''grpA''], EvDelegateKeys ''grpA''])"
  by code_simp

lemma ex_GenSearcherConfig:
  "GenSearcherConfig exExternals exOwner ''grpA'' []
     = (Inr ''grpA'', [EvGenerateAttribKeys [''grpA''], EvDelegateKeys ''grpA''])"
  by code_simp

lemma ex_GenerateAttribKeys:
  "GenerateAttribKeys (aBE exOwner) h attrs sk = Inr (FAMEAttribKeys (length attrs))"
  by (simp add: exOwner_def)

theorem DelegateKeys_without_master_key_witness:
  "(\<exists>dk h'. DelegateKeys exExternals exOwner ''grpA'' [] = (Inr dk, h')
      \<and> DelegatedKeys.Set dk = ''grpA''
      \<and> Inr (ABEAttrK dk) = GenerateAttribKeys (aBE exOwner) [] [''grpA''] (ABESK (keys exOwner))
      \<and> Inr (DelegatedKeys.MFastKeys dk)
          = mfastDelegateKeys (mfastOwner exOwner) [EvGenerateAttribKeys [''grpA'']] ''grpA''
      \<and> DelegatedKeys.ABEPK dk = ownerKeys.ABEPK (keys exOwner))
   \<and> (\<exists>dk2 h'. GenSearcherConfig exExternals exOwner ''grpA'' [] = (Inr ''grpA'', h')
      \<and> DelegateKeys exExternals exOwner ''grpA'' [] = (Inr dk2, h')
      \<and> jsonMarshalIndent exExternals
             \<lparr>SearcherConfig.SetList = OwnerConfig.SetList (config exOwner), Keys = dk2,
              SearcherConfig.ServerAddr = OwnerConfig.ServerAddr (config exOwner)\<rparr> = Inr ''grpA'')
   \<and> DelegateKeys exExternals (exOwner\<lparr>keys := (keys exOwner)\<lparr>ABESK := FAMESecKey 99\<rparr>\<rparr>) ''grpA'' []
       = DelegateKeys exExternals exOwner ''grpA'' []
   \<and> GenSearcherConfig exExternals (exOwner\<lparr>keys := (keys exOwner)\<lparr>ABESK := FAMESecKey 99\<rparr>\<rparr>)
         ''grpA'' []
       = GenSearcherConfig exExternals exOwner ''grpA'' []"
proof (intro conjI)
  let ?dk = "\<lparr>DelegatedKeys.Set = ''grpA'', MFastKeys = MFastKeys.MFastKeys 4,
              ABEAttrK = FAMEAttribKeys 1, DelegatedKeys.ABEPK = FAMEPubKey 1\<rparr>"
  let ?h = "[EvGenerateAttribKeys [''grpA''], EvDelegateKeys ''grpA'']"
  note T = DelegateKeys_without_master_key[where X = exExternals and owner = exOwner
      and ?set0.0 = "''grpA''" and h = "[]" and dk = ?dk and h' = ?h
      and jsonCfg = "''grpA''" and h'' = ?h and sk = "FAMESecKey 99"]
  from T ex_DelegateKeys obtain abeAttrK mfastKeys where
    "GenerateAttribKeys (aBE exOwner) [] [''grpA''] (ABESK (keys exOwner)) = Inr abeAttrK"
    "mfastDelegateKeys (mfastOwner exOwner) ([] @ [EvGenerateAttribKeys [''grpA'']]) ''grpA''
       = Inr mfastKeys"
    "?dk = \<lparr>DelegatedKeys.Set = ''grpA'', MFastKeys = mfastKeys, ABEAttrK = abeAttrK,
            DelegatedKeys.ABEPK = ownerKeys.ABEPK (keys exOwner)\<rparr>"
    by blast
  with ex_DelegateKeys
  show "\<exists>dk h'. DelegateKeys exExternals exOwner ''grpA'' [] = (Inr dk, h')
      \<and> DelegatedKeys.Set dk = ''grpA''
      \<and> Inr (ABEAttrK dk) = GenerateAttribKeys (aBE exOwner) [] [''grpA''] (ABESK (keys exOwner))
      \<and> Inr (DelegatedKeys.MFastKeys dk)
          = mfastDelegateKeys (mfastOwner exOwner) [EvGenerateAttribKeys [''grpA'']] ''grpA''
      \<and> DelegatedKeys.ABEPK dk = ownerKeys.ABEPK (keys exOwner)"
    by (intro exI[of _ ?dk] exI[of _ ?h]) simp
  from T ex_GenSearcherConfig
  show "\<exists>dk2 h'. GenSearcherConfig exExternals exOwner ''grpA'' [] = (Inr ''grpA'', h')
      \<and> DelegateKeys exExternals exOwner ''grpA'' [] = (Inr dk2, h')
      \<and> jsonMarshalIndent exExternals
             \<lparr>SearcherConfig.SetList = OwnerConfig.SetList (config exOwner), Keys = dk2,
              SearcherConfig.ServerAddr = OwnerConfig.ServerAddr (config exOwner)\<rparr> = Inr ''grpA''"
    by blast
  from T ex_GenerateAttribKeys
  show "DelegateKeys exExternals (exOwner\<lparr>keys := (keys exOwner)\<lparr>ABESK := FAMESecKey 99\<rparr>\<rparr>) ''grpA'' []
       = DelegateKeys exExternals exOwner ''grpA'' []"
   and "GenSearcherConfig exExternals (exOwner\<lparr>keys := (keys exOwner)\<lparr>ABESK := FAMESecKey 99\<rparr>\<rparr>)
         ''grpA'' []
       = GenSearcherConfig exExternals exOwner ''grpA'' []"
    by simp_all
qed

section \<open>The two query methods as one\<close>















end
